theory Spec2Isabelle
  imports Main "HOL-Library.Sublist"
begin

section \<open>Data model\<close>

text \<open>
  The structs of \<^verbatim>\<open>neontestdb.go\<close>, field by field and in the order of the source.
  Go's \<^verbatim>\<open>int\<close> fields are only stored, never computed with, so they are \<open>int\<close>.
  \<^verbatim>\<open>float64\<close> and \<^verbatim>\<open>interface{}\<close> values are carried around and never inspected: they
  are opaque types. A \<^verbatim>\<open>map[string]interface{}\<close> is a partial map.
\<close>

typedecl float64
typedecl json_value

record CreateEndpoint =
  Type :: string

record CreateBranch =
  Name :: string
  ParentID :: string

record CreateBranchRequest =
  Endpoints :: "CreateEndpoint list"
  Branch :: CreateBranch

record CreatedBy =
  Name :: string
  Image :: string

record Branch =
  ID :: string
  ProjectID :: string
  ParentID :: string
  ParentLSN :: string
  ParentTimestamp :: string
  Name :: string
  CurrentState :: string
  PendingState :: string
  StateChangedAt :: string
  CreationSource :: string
  Primary :: bool
  Default :: bool
  Protected :: bool
  CPUUsedSec :: int
  ComputeTimeSeconds :: int
  ActiveTimeSeconds :: int
  WrittenDataBytes :: int
  DataTransferBytes :: int
  CreatedAt :: string
  UpdatedAt :: string
  CreatedBy :: CreatedBy

record Endpoint =
  Host :: string
  ID :: string
  ProjectID :: string
  BranchID :: string
  AutoscalingLimitMinCu :: float64
  AutoscalingLimitMaxCu :: float64
  RegionID :: string
  Type :: string
  CurrentState :: string
  PendingState :: string
  Settings :: "string \<rightharpoonup> json_value"
  PoolerEnabled :: bool
  PoolerMode :: string
  Disabled :: bool
  PasswordlessAccess :: bool
  CreationSource :: string
  CreatedAt :: string
  UpdatedAt :: string
  ProxyHost :: string
  SuspendTimeoutSeconds :: int
  Provisioner :: string

record Operation =
  ID :: string
  ProjectID :: string
  BranchID :: string
  EndpointID :: string
  Action :: string
  Status :: string
  FailuresCount :: int
  CreatedAt :: string
  UpdatedAt :: string
  TotalDurationMs :: int

record Role =
  BranchID :: string
  Name :: string
  Protected :: bool
  CreatedAt :: string
  UpdatedAt :: string

record Database =
  ID :: int
  BranchID :: string
  Name :: string
  OwnerName :: string
  CreatedAt :: string
  UpdatedAt :: string

record ConnectionParameters =
  Database :: string
  Password :: string
  Role :: string
  Host :: string
  PoolerHost :: string

record ConnectionURI =
  ConnectionURI :: string
  ConnectionParameters :: ConnectionParameters

record BranchCreated =
  Branch :: Branch
  Endpoints :: "Endpoint list"
  Operations :: "Operation list"
  Roles :: "Role list"
  Databases :: "Database list"
  ConnectionURIs :: "ConnectionURI list"

record Branches =
  Branches :: "Branch list"
  Annotations :: "string \<rightharpoonup> json_value"

text \<open>
  \<^verbatim>\<open>type Client struct\<close>. The \<^verbatim>\<open>http.Client\<close> field is the transport; it is not
  configuration and is kept in the environment \<open>Env\<close> below.
\<close>

record Client =
  Key :: string
  ProjectID :: string
  Branch :: string
  NoCleanup :: bool

section \<open>Requests, responses and the process state\<close>

text \<open>
  An \<^verbatim>\<open>*http.Request\<close> as this package builds it: method, URL, the headers in the order
  they are added, and the body. The only body ever sent is the JSON form of a
  \<open>CreateBranchRequest\<close>; \<^verbatim>\<open>json.Marshal\<close> cannot fail on a struct of strings, so the
  body is kept as the structure that is marshalled (\<open>None\<close> for a \<^verbatim>\<open>nil\<close> body).

  Of an \<^verbatim>\<open>*http.Response\<close> the code reads the status code and the body. A body is a
  JSON document; it is kept as the value it is the JSON form of, or as plain text.
  What \<^verbatim>\<open>json.Decoder.Decode\<close> makes of a document stays a parameter (see \<open>Env\<close>).
\<close>

record Request =
  Method :: string
  URL :: string
  Header :: "(string \<times> string) list"
  Body :: "CreateBranchRequest option"

datatype document =
  Doc_Branch Branch
| Doc_Branches Branches
| Doc_BranchCreated BranchCreated
| Doc_text string

record Response =
  StatusCode :: int
  Body :: document

text \<open>\<^verbatim>\<open>time.Duration\<close> is a count of nanoseconds.\<close>

type_synonym Duration = int

definition Millisecond :: Duration where
  "Millisecond = 1000000"

text \<open>
  What the process does that can be observed from outside, in order: an HTTP exchange
  (the request handed to \<^verbatim>\<open>http.Client.Do\<close> and the response, \<open>None\<close> for a transport
  error), a \<^verbatim>\<open>time.Sleep\<close>, and a call of the user's callback.
\<close>

datatype event =
  Ev_Http Request "Response option"
| Ev_Sleep Duration
| Ev_Callback ConnectionURI

text \<open>
  Every way the process stops instead of returning: the \<^verbatim>\<open>log.Fatalf\<close> calls of the
  source (which exit the process), the two runtime panics the code can raise, and a
  callback that does not return.
\<close>

datatype error =
  Fatal_missing_env string
| Fatal_new_request string
| Fatal_http_client
| Fatal_decode
| Fatal_status int
| Fatal_parent_not_found string string
| Fatal_create_timeout Duration
| Panic_nil_dereference
| Panic_index_out_of_range
| Callback_aborted

text \<open>
  The libraries the package calls, taken as parameters: whether \<^verbatim>\<open>http.NewRequest\<close>
  accepts a URL, what the HTTP client answers (acting on the remote service, whose state
  has type \<open>'w\<close>), and the three instances of \<^verbatim>\<open>json.Decoder.Decode\<close>.
\<close>

record 'w Env =
  url_ok :: "string \<Rightarrow> bool"
  transport :: "'w \<Rightarrow> Request \<Rightarrow> Response option \<times> 'w"
  decode_Branch :: "document \<Rightarrow> Branch option"
  decode_Branches :: "document \<Rightarrow> Branches option"
  decode_BranchCreated :: "document \<Rightarrow> BranchCreated option"

text \<open>
  The state of the process and its surroundings: the package variable
  \<^verbatim>\<open>defaultBranch\<close>, the environment variables (\<^verbatim>\<open>os.Getenv\<close> gives the empty string
  for an unset one), the host name (\<^verbatim>\<open>os.Hostname\<close>, whose error is discarded), the remote
  service, the clock (advanced by sleeping) and the events so far.
\<close>

record 'w proc =
  defaultBranch :: string
  environ :: "string \<Rightarrow> string"
  hostname :: string
  remote :: 'w
  clock :: int
  trace :: "event list"

type_synonym ('w, 'a) prog = "'w proc \<Rightarrow> (error + 'a) \<times> 'w proc"

definition ret :: "'a \<Rightarrow> ('w, 'a) prog" where
  "ret x s = (Inr x, s)"

definition fatal :: "error \<Rightarrow> ('w, 'a) prog" where
  "fatal e s = (Inl e, s)"

definition bind :: "('w, 'a) prog \<Rightarrow> ('a \<Rightarrow> ('w, 'b) prog) \<Rightarrow> ('w, 'b) prog" where
  "bind m f s = (case m s of (Inl e, s') \<Rightarrow> (Inl e, s') | (Inr x, s') \<Rightarrow> f x s')"

section \<open>Transport\<close>

definition BranchesURL :: "Client \<Rightarrow> string" where
  "BranchesURL n =
     ''https://console.neon.tech/api/v2/projects/'' @ Client.ProjectID n @ ''/branches''"

definition BranchURL :: "Client \<Rightarrow> string \<Rightarrow> string" where
  "BranchURL n branch =
     ''https://console.neon.tech/api/v2/projects/'' @ Client.ProjectID n @ ''/branches/'' @ branch"

definition NewRequest ::
  "'w Env \<Rightarrow> Client \<Rightarrow> string \<Rightarrow> string \<Rightarrow> CreateBranchRequest option \<Rightarrow> ('w, Request) prog" where
  "NewRequest env n method url body =
     (if \<not> url_ok env url then fatal (Fatal_new_request url)
      else ret \<lparr>Method = method, URL = url,
                Header = [(''Accept'', ''application/json''),
                          (''Authorization'', ''Bearer '' @ Key n)],
                Body = body\<rparr>)"

definition Do :: "'w Env \<Rightarrow> Request \<Rightarrow> ('w, Response) prog" where
  "Do env req s =
     (case transport env (remote s) req of
        (None, w') \<Rightarrow>
          (Inl Fatal_http_client, s\<lparr>remote := w', trace := trace s @ [Ev_Http req None]\<rparr>)
      | (Some resp, w') \<Rightarrow>
          (Inr resp, s\<lparr>remote := w', trace := trace s @ [Ev_Http req (Some resp)]\<rparr>))"

definition parseResponse :: "(document \<Rightarrow> 'a option) \<Rightarrow> Response \<Rightarrow> ('w, 'a) prog" where
  "parseResponse decode resp =
     (case decode (Response.Body resp) of
        None \<Rightarrow> fatal Fatal_decode
      | Some result \<Rightarrow> ret result)"

definition validateStatus :: "Response \<Rightarrow> int list \<Rightarrow> ('w, unit) prog" where
  "validateStatus resp acceptedStatus =
     (if StatusCode resp \<notin> set acceptedStatus
      then fatal (Fatal_status (StatusCode resp))
      else ret ())"

definition StatusOK :: int where "StatusOK = 200"
definition StatusCreated :: int where "StatusCreated = 201"
definition StatusNotFound :: int where "StatusNotFound = 404"
definition StatusLocked :: int where "StatusLocked = 423"

section \<open>Branch registry client\<close>

definition GetBranches :: "'w Env \<Rightarrow> Client \<Rightarrow> ('w, Branches option) prog" where
  "GetBranches env n =
     bind (NewRequest env n ''GET'' (BranchesURL n) None) (\<lambda>req.
     bind (Do env req) (\<lambda>resp.
       if StatusCode resp = StatusNotFound then ret None
       else bind (validateStatus resp [StatusOK]) (\<lambda>_.
            bind (parseResponse (decode_Branches env) resp) (\<lambda>result.
            ret (Some result)))))"

definition GetBranch :: "'w Env \<Rightarrow> Client \<Rightarrow> string \<Rightarrow> ('w, Branch option) prog" where
  "GetBranch env n name =
     bind (NewRequest env n ''GET'' (BranchURL n name) None) (\<lambda>req.
     bind (Do env req) (\<lambda>resp.
       if StatusCode resp = StatusNotFound then ret None
       else bind (validateStatus resp [StatusOK]) (\<lambda>_.
            bind (parseResponse (decode_Branch env) resp) (\<lambda>result.
            ret (Some result)))))"

definition DeleteBranch :: "'w Env \<Rightarrow> Client \<Rightarrow> string \<Rightarrow> ('w, unit) prog" where
  "DeleteBranch env n name =
     bind (NewRequest env n ''DELETE'' (BranchURL n name) None) (\<lambda>req.
     bind (Do env req) (\<lambda>resp.
     validateStatus resp [StatusOK]))"

text \<open>
  \<^verbatim>\<open>GetBranchByName\<close> ranges over \<^verbatim>\<open>n.GetBranches().Branches\<close> and returns the first
  branch whose \<^verbatim>\<open>Name\<close> equals the argument. \<^verbatim>\<open>GetBranches\<close> returns a pointer; reading
  the field \<^verbatim>\<open>Branches\<close> through a \<^verbatim>\<open>nil\<close> pointer is a runtime panic.
\<close>

primrec scanBranches :: "Branch list \<Rightarrow> string \<Rightarrow> Branch option" where
  "scanBranches [] name = None"
| "scanBranches (branch # rest) name =
     (if Branch.Name branch = name then Some branch else scanBranches rest name)"

definition GetBranchByName :: "'w Env \<Rightarrow> Client \<Rightarrow> string \<Rightarrow> ('w, Branch option) prog" where
  "GetBranchByName env n name =
     bind (GetBranches env n) (\<lambda>branches.
       case branches of
         None \<Rightarrow> fatal Panic_nil_dereference
       | Some bs \<Rightarrow> ret (scanBranches (Branches bs) name))"

definition NewCreateBranchRequest :: "'w Env \<Rightarrow> Client \<Rightarrow> CreateBranch \<Rightarrow> ('w, Request) prog" where
  "NewCreateBranchRequest env n branch =
     bind (NewRequest env n ''POST'' (BranchesURL n)
             (Some \<lparr>CreateBranchRequest.Endpoints = [\<lparr>CreateEndpoint.Type = ''read_write''\<rparr>],
                    Branch = branch\<rparr>)) (\<lambda>req.
     ret (req\<lparr>Header := Header req @ [(''Content-Type'', ''application/json'')]\<rparr>))"

text \<open>
  \<^verbatim>\<open>time.Sleep\<close> returns at once for a duration that is not positive; otherwise the
  clock moves on by the duration.
\<close>

definition Sleep :: "Duration \<Rightarrow> 'w proc \<Rightarrow> 'w proc" where
  "Sleep d s = s\<lparr>clock := clock s + max 0 d, trace := trace s @ [Ev_Sleep d]\<rparr>"

text \<open>
  The retry loop of \<^verbatim>\<open>CreateBranch\<close>:
  \<^verbatim>\<open>for retry := 10 * time.Millisecond; retry <= 100*time.Millisecond; retry += 10\<close>.
  The variable \<open>retry\<close> is a \<^verbatim>\<open>time.Duration\<close>, so the untyped constant \<open>10\<close> of the
  increment is ten nanoseconds. The values stay below \<open>2 ^ 63\<close>, so the signed 64-bit
  arithmetic of the source never wraps and \<open>int\<close> is exact. When the loop condition
  fails, \<^verbatim>\<open>log.Fatalf\<close> reports \<^verbatim>\<open>time.Since(start)\<close>.
\<close>

function create_loop ::
  "'w Env \<Rightarrow> Client \<Rightarrow> string \<Rightarrow> Branch \<Rightarrow> int \<Rightarrow> Duration \<Rightarrow> ('w, BranchCreated) prog" where
  "create_loop env n name parent start retry s =
     (if retry \<le> 100 * Millisecond then
        (case bind (NewCreateBranchRequest env n
                      \<lparr>CreateBranch.Name = name, ParentID = Branch.ID parent\<rparr>) (Do env) s of
           (Inl e, s') \<Rightarrow> (Inl e, s')
         | (Inr resp, s') \<Rightarrow>
             if StatusCode resp = StatusLocked
             then create_loop env n name parent start (retry + 10) (Sleep retry s')
             else bind (validateStatus resp [StatusOK, StatusCreated]) (\<lambda>_.
                  parseResponse (decode_BranchCreated env) resp) s')
      else (Inl (Fatal_create_timeout (clock s - start)), s))"
  by pat_completeness auto
termination
  by (relation "measure (\<lambda>(env, n, name, parent, start, retry, s).
                   nat (100 * Millisecond + 10 - retry))") auto

declare create_loop.simps [simp del]

definition CreateBranch :: "'w Env \<Rightarrow> Client \<Rightarrow> string \<Rightarrow> ('w, BranchCreated) prog" where
  "CreateBranch env n name =
     bind (GetBranchByName env n (Client.Branch n)) (\<lambda>parent.
       case parent of
         None \<Rightarrow> fatal (Fatal_parent_not_found name (Client.Branch n))
       | Some p \<Rightarrow> (\<lambda>s. create_loop env n name p (clock s) (10 * Millisecond) s))"

section \<open>Branch lifecycle manager\<close>

definition ForcedCreateBranch :: "'w Env \<Rightarrow> Client \<Rightarrow> string \<Rightarrow> ('w, BranchCreated) prog" where
  "ForcedCreateBranch env n name =
     bind (GetBranch env n name) (\<lambda>branch.
     bind (case branch of Some _ \<Rightarrow> DeleteBranch env n name | None \<Rightarrow> ret ()) (\<lambda>_.
     CreateBranch env n name))"

text \<open>
  The callback is the caller's code. It acts on the remote service (it connects to the
  database) and either returns or does not (\<open>None\<close>: a panic or \<^verbatim>\<open>runtime.Goexit\<close>,
  as \<^verbatim>\<open>t.FailNow\<close> does).
\<close>

type_synonym 'w callback = "ConnectionURI \<Rightarrow> 'w \<Rightarrow> 'w option"

definition call :: "'w callback \<Rightarrow> ConnectionURI \<Rightarrow> ('w, unit) prog" where
  "call do uri s =
     (case do uri (remote s) of
        None \<Rightarrow> (Inl Callback_aborted, s\<lparr>trace := trace s @ [Ev_Callback uri]\<rparr>)
      | Some w' \<Rightarrow> (Inr (), s\<lparr>remote := w', trace := trace s @ [Ev_Callback uri]\<rparr>))"

text \<open>
  \<^verbatim>\<open>created.ConnectionURIs[0]\<close> is an index expression on a slice: on an empty slice it
  panics with an index out of range.
\<close>

definition UsingBranch :: "'w Env \<Rightarrow> Client \<Rightarrow> string \<Rightarrow> 'w callback \<Rightarrow> ('w, unit) prog" where
  "UsingBranch env n name do =
     bind (ForcedCreateBranch env n name) (\<lambda>created.
       case ConnectionURIs created of
         [] \<Rightarrow> fatal Panic_index_out_of_range
       | uri # _ \<Rightarrow>
           bind (call do uri) (\<lambda>_.
           if \<not> NoCleanup n then DeleteBranch env n (Branch.ID (BranchCreated.Branch created))
           else ret ()))"

text \<open>
  \<^verbatim>\<open>strings.ReplaceAll(s, old, new)\<close> for a non-empty \<open>old\<close>: the non-overlapping
  occurrences of \<open>old\<close>, from the left, are replaced by \<open>new\<close>. (For an empty \<open>old\<close> Go
  inserts \<open>new\<close> around every code point; the package never calls it so, and the
  function below leaves the string as it is.)
\<close>

function ReplaceAll :: "string \<Rightarrow> string \<Rightarrow> string \<Rightarrow> string" where
  "ReplaceAll [] old new = []"
| "ReplaceAll (c # cs) old new =
     (if old \<noteq> [] \<and> prefix old (c # cs)
      then new @ ReplaceAll (drop (length old) (c # cs)) old new
      else c # ReplaceAll cs old new)"
  by pat_completeness auto
termination
  by (relation "measure (\<lambda>(s, old, new). length s)") auto

definition branchName :: "string \<Rightarrow> string \<Rightarrow> string" where
  "branchName host tname = ReplaceAll (host @ ''.'' @ tname) ''/'' ''.''"

definition UsingTestBranch :: "'w Env \<Rightarrow> Client \<Rightarrow> string \<Rightarrow> 'w callback \<Rightarrow> ('w, unit) prog" where
  "UsingTestBranch env n tname do s =
     UsingBranch env n (branchName (hostname s) tname) do s"

section \<open>Configuration\<close>

definition SetDefaultBranch :: "string \<Rightarrow> 'w proc \<Rightarrow> 'w proc" where
  "SetDefaultBranch branch s = s\<lparr>defaultBranch := branch\<rparr>"

definition require :: "string \<Rightarrow> ('w, string) prog" where
  "require key s =
     (if environ s key = '''' then fatal (Fatal_missing_env key) s
      else ret (environ s key) s)"

definition LoadClient :: "('w, Client) prog" where
  "LoadClient =
     bind (require ''NEON_API_KEY'') (\<lambda>key.
     bind (require ''NEON_PROJECT_ID'') (\<lambda>project.
     (\<lambda>s. ret \<lparr>Key = key, ProjectID = project, Branch = defaultBranch s, NoCleanup = False\<rparr> s)))"

section \<open>The remote service\<close>

text \<open>
  Modelled from the spec: the remote control-plane service, which is not part of the
  repository. The specification describes it by its REST interface: listing the branches
  of a project, fetching and deleting one branch addressed by its identifier or name in
  the URL path (404 when there is none), and creating a branch, which is refused with the
  locked status 423 while another operation holds the lock. Branch names are unique within
  a project at any instant, so a creation under a name in use is refused (409). Requests
  for another project are answered 404.

  \<open>locked\<close> counts the creation requests that will still be refused as locked.
\<close>

record Remote =
  project :: string
  branches :: "Branch list"
  locked :: nat

definition resolves :: "string \<Rightarrow> Branch \<Rightarrow> bool" where
  "resolves key b = (Branch.ID b = key \<or> Branch.Name b = key)"

definition zeroBranch :: Branch where
  "zeroBranch =
     \<lparr>Branch.ID = [], ProjectID = [], ParentID = [], ParentLSN = [], ParentTimestamp = [],
      Name = [], CurrentState = [], PendingState = [], StateChangedAt = [],
      CreationSource = [], Primary = False, Default = False, Protected = False,
      CPUUsedSec = 0, ComputeTimeSeconds = 0, ActiveTimeSeconds = 0, WrittenDataBytes = 0,
      DataTransferBytes = 0, CreatedAt = [], UpdatedAt = [],
      CreatedBy = \<lparr>CreatedBy.Name = [], Image = []\<rparr>\<rparr>"

definition newBranch :: "string \<Rightarrow> CreateBranch \<Rightarrow> Branch" where
  "newBranch proj c =
     zeroBranch\<lparr>Branch.ID := ''br-'' @ CreateBranch.Name c, Branch.ProjectID := proj,
                Branch.ParentID := CreateBranch.ParentID c, Branch.Name := CreateBranch.Name c\<rparr>"

definition newConnectionURI :: "Branch \<Rightarrow> ConnectionURI" where
  "newConnectionURI b =
     \<lparr>ConnectionURI = ''postgresql://'' @ Branch.ID b,
      ConnectionParameters =
        \<lparr>Database = ''neondb'', Password = [], Role = ''owner'', Host = Branch.ID b,
         PoolerHost = []\<rparr>\<rparr>"

definition creationResult :: "Branch \<Rightarrow> BranchCreated" where
  "creationResult b =
     \<lparr>BranchCreated.Branch = b, Endpoints = [], Operations = [], Roles = [], Databases = [],
      ConnectionURIs = [newConnectionURI b]\<rparr>"

definition answer :: "int \<Rightarrow> document \<Rightarrow> Response option" where
  "answer status doc = Some \<lparr>StatusCode = status, Body = doc\<rparr>"

text \<open>
  Modelled from the spec: what the remote service answers to a request, and the state it
  is in afterwards. The first case is the collection URL of the service's project
  (\<^verbatim>\<open>GET\<close> lists, \<^verbatim>\<open>POST\<close> creates), the second a URL of one branch under it
  (\<^verbatim>\<open>GET\<close> fetches, \<^verbatim>\<open>DELETE\<close> deletes every branch the path segment resolves to).
\<close>

definition serve :: "Remote \<Rightarrow> Request \<Rightarrow> Response option \<times> Remote" where
  "serve r req =
     (let base = ''https://console.neon.tech/api/v2/projects/'' @ project r @ ''/branches'' in
      if URL req = base then
        if Method req = ''GET'' then
          (answer 200 (Doc_Branches \<lparr>Branches = branches r, Annotations = Map.empty\<rparr>), r)
        else if Method req = ''POST'' then
          (case Request.Body req of
             None \<Rightarrow> (answer 400 (Doc_text ''no body''), r)
           | Some c \<Rightarrow>
               if 0 < locked r then
                 (answer 423 (Doc_text ''locked''), r\<lparr>locked := locked r - 1\<rparr>)
               else if list_ex (\<lambda>b. Branch.Name b = CreateBranch.Name (CreateBranchRequest.Branch c))
                         (branches r) then
                 (answer 409 (Doc_text ''branch already exists''), r)
               else
                 (answer 201 (Doc_BranchCreated
                                (creationResult (newBranch (project r) (CreateBranchRequest.Branch c)))),
                  r\<lparr>branches := branches r @
                                    [newBranch (project r) (CreateBranchRequest.Branch c)]\<rparr>))
        else (answer 405 (Doc_text ''method not allowed''), r)
      else if prefix (base @ ''/'') (URL req) then
        (let key = drop (length base + 1) (URL req) in
         if Method req = ''GET'' then
           (case List.find (resolves key) (branches r) of
              None \<Rightarrow> (answer 404 (Doc_text ''branch not found''), r)
            | Some b \<Rightarrow> (answer 200 (Doc_Branch b), r))
         else if Method req = ''DELETE'' then
           (if list_ex (resolves key) (branches r) then
              (answer 200 (Doc_text ''deleted''),
               r\<lparr>branches := filter (\<lambda>b. \<not> resolves key b) (branches r)\<rparr>)
            else (answer 404 (Doc_text ''branch not found''), r))
         else (answer 405 (Doc_text ''method not allowed''), r))
      else (answer 404 (Doc_text ''project not found''), r))"

text \<open>
  What Go's \<^verbatim>\<open>net/http\<close> makes of the URL string of a request before anything is sent
  (\<^verbatim>\<open>http.NewRequest\<close> parses it with \<^verbatim>\<open>url.Parse\<close>). The string is cut at the
  first \<open>#\<close>: what follows is the fragment, which is never sent. The part before it must
  not contain a control character, and is cut again at the first \<open>?\<close>, where the query
  begins. Percent escapes in the path and in the fragment must be well formed, or the
  parse fails. The service resolves the percent-decoded path. \<open>target\<close> is the address
  the service sees (scheme, host and decoded path), or \<open>None\<close> when the URL is refused.
\<close>

definition is_ctl :: "char \<Rightarrow> bool" where
  "is_ctl c = ((of_char c :: nat) < 32 \<or> (of_char c :: nat) = 127)"

definition hexval :: "char \<Rightarrow> nat option" where
  "hexval c =
     (let k = (of_char c :: nat) in
      if 48 \<le> k \<and> k \<le> 57 then Some (k - 48)
      else if 97 \<le> k \<and> k \<le> 102 then Some (k - 87)
      else if 65 \<le> k \<and> k \<le> 70 then Some (k - 55)
      else None)"

fun unescape :: "string \<Rightarrow> string option" where
  "unescape [] = Some []"
| "unescape (c # cs) =
     (if c = CHR ''%'' then
        (case cs of
           h1 # h2 # rest \<Rightarrow>
             (case (hexval h1, hexval h2) of
                (Some a, Some b) \<Rightarrow> map_option ((#) (char_of (16 * a + b))) (unescape rest)
              | _ \<Rightarrow> None)
         | _ \<Rightarrow> None)
      else map_option ((#) c) (unescape cs))"

definition target :: "string \<Rightarrow> string option" where
  "target url =
     (let u = takeWhile (\<lambda>c. c \<noteq> CHR ''#'') url;
          frag = drop (length u + 1) url
      in if list_ex is_ctl u then None
         else case unescape frag of
                None \<Rightarrow> None
              | Some _ \<Rightarrow> unescape (takeWhile (\<lambda>c. c \<noteq> CHR ''?'') u))"

text \<open>
  A string that a URL carries as it is: no \<open>#\<close>, no \<open>?\<close>, no \<open>%\<close> and no control
  character.
\<close>

definition literal :: "string \<Rightarrow> bool" where
  "literal s =
     list_all (\<lambda>c. c \<noteq> CHR ''#'' \<and> c \<noteq> CHR ''?'' \<and> c \<noteq> CHR ''%'' \<and> \<not> is_ctl c) s"

text \<open>
  The environment in which the client talks to this service through \<^verbatim>\<open>net/http\<close>: a URL
  is accepted when it parses, the transport delivers the request to the address the URL
  stands for and always delivers the answer, and a document decodes as the type it is the
  JSON form of.
\<close>

definition serviceEnv :: "Remote Env" where
  "serviceEnv =
     \<lparr>url_ok = (\<lambda>url. target url \<noteq> None),
      transport = (\<lambda>r req. case target (URL req) of
                              None \<Rightarrow> (None, r)
                            | Some a \<Rightarrow> serve r (req\<lparr>URL := a\<rparr>)),
      decode_Branch = (\<lambda>d. case d of Doc_Branch b \<Rightarrow> Some b | _ \<Rightarrow> None),
      decode_Branches = (\<lambda>d. case d of Doc_Branches bs \<Rightarrow> Some bs | _ \<Rightarrow> None),
      decode_BranchCreated = (\<lambda>d. case d of Doc_BranchCreated c \<Rightarrow> Some c | _ \<Rightarrow> None)\<rparr>"

text \<open>
  A concrete setting: project \<open>p1\<close> with the single branch \<open>main\<close>, a client loaded for it,
  and a process on host \<open>h1\<close>.
\<close>

definition mainBranch :: Branch where
  "mainBranch = zeroBranch\<lparr>Branch.ID := ''br-main'', Branch.ProjectID := ''p1'',
                            Branch.Name := ''main'', Default := True\<rparr>"

definition remote0 :: "nat \<Rightarrow> Remote" where
  "remote0 k = \<lparr>project = ''p1'', branches = [mainBranch], locked = k\<rparr>"

definition environ0 :: "string \<Rightarrow> string" where
  "environ0 key =
     (if key = ''NEON_API_KEY'' then ''secret''
      else if key = ''NEON_PROJECT_ID'' then ''p1'' else [])"

definition proc0 :: "'w \<Rightarrow> 'w proc" where
  "proc0 w = \<lparr>defaultBranch = ''main'', environ = environ0, hostname = ''h1'', remote = w,
              clock = 0, trace = []\<rparr>"

definition client0 :: Client where
  "client0 = \<lparr>Key = ''secret'', ProjectID = ''p1'', Branch = ''main'', NoCleanup = False\<rparr>"

text \<open>A service whose creation result carries no connection URI.\<close>

definition noURIsEnv :: "Remote Env" where
  "noURIsEnv =
     serviceEnv\<lparr>decode_BranchCreated :=
       (\<lambda>d. case d of Doc_BranchCreated c \<Rightarrow> Some (c\<lparr>ConnectionURIs := []\<rparr>) | _ \<Rightarrow> None)\<rparr>"

definition noop :: "'w callback" where
  "noop uri w = Some w"

text \<open>A callback that leaves a mark on the service: it adds one to \<open>locked\<close>.\<close>

definition touch :: "Remote callback" where
  "touch uri r = Some (r\<lparr>locked := Suc (locked r)\<rparr>)"

section \<open>Reading a trace\<close>

text \<open>
  The projections of a list of events used to state what an operation did: the callback
  invocations, the requests sent, the durations slept and the status codes received.
\<close>

fun callbacks :: "event list \<Rightarrow> ConnectionURI list" where
  "callbacks [] = []"
| "callbacks (Ev_Callback uri # evs) = uri # callbacks evs"
| "callbacks (_ # evs) = callbacks evs"

fun requests :: "event list \<Rightarrow> Request list" where
  "requests [] = []"
| "requests (Ev_Http req _ # evs) = req # requests evs"
| "requests (_ # evs) = requests evs"

fun sleeps :: "event list \<Rightarrow> Duration list" where
  "sleeps [] = []"
| "sleeps (Ev_Sleep d # evs) = d # sleeps evs"
| "sleeps (_ # evs) = sleeps evs"

fun statuses :: "event list \<Rightarrow> int list" where
  "statuses [] = []"
| "statuses (Ev_Http _ (Some resp) # evs) = StatusCode resp # statuses evs"
| "statuses (_ # evs) = statuses evs"

text \<open>
  Properties of a program, for every state it is started in: it only adds events of one
  kind to the trace (\<open>quiet\<close>: none of them a call of the callback), and it neither
  reads nor writes the package variable \<^verbatim>\<open>defaultBranch\<close> and the environment
  variables (with other values for them it does the same and leaves them as they are).
\<close>

fun is_http :: "event \<Rightarrow> bool" where
  "is_http (Ev_Http _ _) = True"
| "is_http _ = False"

fun is_callback :: "event \<Rightarrow> bool" where
  "is_callback (Ev_Callback _) = True"
| "is_callback _ = False"

definition adds :: "(event \<Rightarrow> bool) \<Rightarrow> ('w, 'a) prog \<Rightarrow> bool" where
  "adds P m = (\<forall>s. \<exists>evs. trace (snd (m s)) = trace s @ evs \<and> list_all P evs)"

definition quiet :: "('w, 'a) prog \<Rightarrow> bool" where
  "quiet m = adds (\<lambda>e. \<not> is_callback e) m"

definition with_globals :: "string \<Rightarrow> (string \<Rightarrow> string) \<Rightarrow> 'w proc \<Rightarrow> 'w proc" where
  "with_globals b ev s = s\<lparr>defaultBranch := b, environ := ev\<rparr>"

definition indep :: "('w, 'a) prog \<Rightarrow> bool" where
  "indep m = (\<forall>s b ev. m (with_globals b ev s) =
                (case m s of (r, s') \<Rightarrow> (r, with_globals b ev s')))"

text \<open>
  The request that \<open>NewRequest\<close> returns when the URL is accepted, and the one that
  \<open>NewCreateBranchRequest\<close> returns then (lemma \<open>attempt_eq\<close> below).
\<close>

definition builtRequest ::
  "Client \<Rightarrow> string \<Rightarrow> string \<Rightarrow> CreateBranchRequest option \<Rightarrow> Request" where
  "builtRequest n method url body =
     \<lparr>Method = method, URL = url,
      Header = [(''Accept'', ''application/json''),
                (''Authorization'', ''Bearer '' @ Key n)],
      Body = body\<rparr>"

definition createRequest :: "Client \<Rightarrow> CreateBranch \<Rightarrow> Request" where
  "createRequest n branch =
     \<lparr>Method = ''POST'', URL = BranchesURL n,
      Header = [(''Accept'', ''application/json''),
                (''Authorization'', ''Bearer '' @ Key n),
                (''Content-Type'', ''application/json'')],
      Body = Some \<lparr>CreateBranchRequest.Endpoints = [\<lparr>CreateEndpoint.Type = ''read_write''\<rparr>],
                   Branch = branch\<rparr>\<rparr>"

section \<open>The monad\<close>

lemma bind_ret [simp]: "bind (ret x) f = f x"
  by (rule ext) (simp add: bind_def ret_def)

lemma bind_fatal [simp]: "bind (fatal e) f = fatal e"
  by (rule ext) (simp add: bind_def fatal_def)

lemma bind_Inr: "m s = (Inr x, s') \<Longrightarrow> bind m f s = f x s'"
  by (simp add: bind_def)

lemma bind_Inl: "m s = (Inl e, s') \<Longrightarrow> bind m f s = (Inl e, s')"
  by (simp add: bind_def)

lemma callbacks_append [simp]: "callbacks (xs @ ys) = callbacks xs @ callbacks ys"
  by (induction xs rule: callbacks.induct) simp_all

lemma requests_append [simp]: "requests (xs @ ys) = requests xs @ requests ys"
  by (induction xs rule: requests.induct) simp_all

lemma sleeps_append [simp]: "sleeps (xs @ ys) = sleeps xs @ sleeps ys"
  by (induction xs rule: sleeps.induct) simp_all

lemma statuses_append [simp]: "statuses (xs @ ys) = statuses xs @ statuses ys"
  by (induction xs rule: statuses.induct) simp_all

text \<open>The definitions to unfold when a program is run on a concrete state.\<close>

lemmas run_defs = GetBranch_def GetBranches_def DeleteBranch_def GetBranchByName_def
  NewCreateBranchRequest_def CreateBranch_def ForcedCreateBranch_def UsingBranch_def
  UsingTestBranch_def call_def Sleep_def
  NewRequest_def Do_def bind_def ret_def fatal_def validateStatus_def parseResponse_def
  BranchURL_def BranchesURL_def StatusNotFound_def StatusOK_def StatusCreated_def
  StatusLocked_def Millisecond_def

lemmas service_defs = serviceEnv_def serve_def answer_def resolves_def newBranch_def
  creationResult_def newConnectionURI_def proc0_def remote0_def client0_def mainBranch_def
  zeroBranch_def noop_def Let_def target_def is_ctl_def hexval_def

section \<open>Branch names of tests\<close>

lemma ReplaceAll_char:
  "ReplaceAll s [c] [d] = map (\<lambda>x. if x = c then d else x) s"
  by (induction s) auto

text \<open>
  Claim C6. \<open>UsingTestBranch\<close> passes to \<open>UsingBranch\<close> a name that is a function of the
  host name and the test name alone (so equal hosts and test names give equal names): the
  host name, a dot and the test name, with every slash of that string replaced by a dot.
  The name contains no slash. On host \<open>h1\<close> the test \<open>TestFoo\<close> gets the name
  \<open>h1.TestFoo\<close> and the subtest \<open>TestFoo/case1\<close> the name \<open>h1.TestFoo.case1\<close>.
\<close>

theorem UsingTestBranch_branch_name:
  "UsingTestBranch env n tname do s = UsingBranch env n (branchName (hostname s) tname) do s
   \<and> branchName host tname =
       map (\<lambda>x. if x = CHR ''/'' then CHR ''.'' else x) (host @ ''.'' @ tname)
   \<and> CHR ''/'' \<notin> set (branchName host tname)
   \<and> branchName ''h1'' ''TestFoo'' = ''h1.TestFoo''
   \<and> branchName ''h1'' ''TestFoo/case1'' = ''h1.TestFoo.case1''"
  by (auto simp: UsingTestBranch_def branchName_def ReplaceAll_char)

section \<open>Status codes of the read operations\<close>

lemma GetBranch_exchange:
  assumes "trace (snd (GetBranch env n name s)) = trace s @ [Ev_Http req (Some resp)]"
  shows "fst (GetBranch env n name s) =
           (if StatusCode resp = 404 then Inr None
            else if StatusCode resp = 200 then
              (case decode_Branch env (Response.Body resp) of
                 None \<Rightarrow> Inl Fatal_decode | Some b \<Rightarrow> Inr (Some b))
            else Inl (Fatal_status (StatusCode resp)))"
  using assms
  by (auto simp: GetBranch_def NewRequest_def Do_def bind_def ret_def fatal_def
        validateStatus_def parseResponse_def StatusNotFound_def StatusOK_def
      split: if_splits prod.splits option.splits)

lemma GetBranches_exchange:
  assumes "trace (snd (GetBranches env n s)) = trace s @ [Ev_Http req (Some resp)]"
  shows "fst (GetBranches env n s) =
           (if StatusCode resp = 404 then Inr None
            else if StatusCode resp = 200 then
              (case decode_Branches env (Response.Body resp) of
                 None \<Rightarrow> Inl Fatal_decode | Some b \<Rightarrow> Inr (Some b))
            else Inl (Fatal_status (StatusCode resp)))"
  using assms
  by (auto simp: GetBranches_def NewRequest_def Do_def bind_def ret_def fatal_def
        validateStatus_def parseResponse_def StatusNotFound_def StatusOK_def
      split: if_splits prod.splits option.splits)

text \<open>
  Claim C8. When \<open>GetBranch\<close> has exchanged its request for a response, it returns
  absence exactly when the status is 404, it returns a branch exactly when the status is
  200 and the body decodes (the branch is the decoded one), and it ends the process in
  every other case: with the unexpected status, or with the decoding error under status
  200. \<open>GetBranches\<close> does the same with the list of branches. The result of either is
  a value or absence; an error is never a result, it is the end of the process.
\<close>

theorem GetBranch_GetBranches_status:
  assumes "trace (snd (GetBranch env n name s)) = trace s @ [Ev_Http req (Some resp)]"
      and "trace (snd (GetBranches env n s)) = trace s @ [Ev_Http req' (Some resp')]"
  shows "(fst (GetBranch env n name s) = Inr None \<longleftrightarrow> StatusCode resp = 404)
       \<and> (\<forall>b. fst (GetBranch env n name s) = Inr (Some b) \<longleftrightarrow>
              StatusCode resp = 200 \<and> decode_Branch env (Response.Body resp) = Some b)
       \<and> (StatusCode resp \<noteq> 404 \<and> StatusCode resp \<noteq> 200 \<longrightarrow>
            fst (GetBranch env n name s) = Inl (Fatal_status (StatusCode resp)))
       \<and> (StatusCode resp = 200 \<and> decode_Branch env (Response.Body resp) = None \<longrightarrow>
            fst (GetBranch env n name s) = Inl Fatal_decode)
       \<and> (fst (GetBranches env n s) = Inr None \<longleftrightarrow> StatusCode resp' = 404)
       \<and> (\<forall>bs. fst (GetBranches env n s) = Inr (Some bs) \<longleftrightarrow>
              StatusCode resp' = 200 \<and> decode_Branches env (Response.Body resp') = Some bs)
       \<and> (StatusCode resp' \<noteq> 404 \<and> StatusCode resp' \<noteq> 200 \<longrightarrow>
            fst (GetBranches env n s) = Inl (Fatal_status (StatusCode resp')))
       \<and> (StatusCode resp' = 200 \<and> decode_Branches env (Response.Body resp') = None \<longrightarrow>
            fst (GetBranches env n s) = Inl Fatal_decode)"
  unfolding GetBranch_exchange [OF assms(1)] GetBranches_exchange [OF assms(2)]
  by (auto split: option.splits)

theorem GetBranch_GetBranches_status_witness:
  "fst (GetBranch serviceEnv client0 ''main'' (proc0 (remote0 0))) = Inr (Some mainBranch)
   \<and> fst (GetBranches serviceEnv client0 (proc0 (remote0 0))) =
       Inr (Some \<lparr>Branches = [mainBranch], Annotations = Map.empty\<rparr>)"
proof -
  have "\<exists>req resp. trace (snd (GetBranch serviceEnv client0 ''main'' (proc0 (remote0 0)))) =
          trace (proc0 (remote0 0)) @ [Ev_Http req (Some resp)]
          \<and> StatusCode resp = 200 \<and> Response.Body resp = Doc_Branch mainBranch"
    by (simp add: run_defs service_defs)
  then obtain req resp where
    h1: "trace (snd (GetBranch serviceEnv client0 ''main'' (proc0 (remote0 0)))) =
          trace (proc0 (remote0 0)) @ [Ev_Http req (Some resp)]"
    and r1: "StatusCode resp = 200" "Response.Body resp = Doc_Branch mainBranch"
    by blast
  have "\<exists>req resp. trace (snd (GetBranches serviceEnv client0 (proc0 (remote0 0)))) =
          trace (proc0 (remote0 0)) @ [Ev_Http req (Some resp)]
          \<and> StatusCode resp = 200
          \<and> Response.Body resp = Doc_Branches \<lparr>Branches = [mainBranch], Annotations = Map.empty\<rparr>"
    by (simp add: run_defs service_defs)
  then obtain req' resp' where
    h2: "trace (snd (GetBranches serviceEnv client0 (proc0 (remote0 0)))) =
          trace (proc0 (remote0 0)) @ [Ev_Http req' (Some resp')]"
    and r2: "StatusCode resp' = 200"
      "Response.Body resp' = Doc_Branches \<lparr>Branches = [mainBranch], Annotations = Map.empty\<rparr>"
    by blast
  from GetBranch_GetBranches_status [OF h1 h2] r1 r2 show ?thesis
    by (simp add: serviceEnv_def)
qed

section \<open>What an operation adds to the trace\<close>

lemma addsI: "(\<And>s. \<exists>evs. trace (snd (m s)) = trace s @ evs \<and> list_all P evs) \<Longrightarrow> adds P m"
  by (simp add: adds_def)

lemma addsD: "adds P m \<Longrightarrow> \<exists>evs. trace (snd (m s)) = trace s @ evs \<and> list_all P evs"
  by (simp add: adds_def)

lemma adds_mono: "adds P m \<Longrightarrow> (\<And>e. P e \<Longrightarrow> Q e) \<Longrightarrow> adds Q m"
  unfolding adds_def list_all_iff by blast

lemma adds_ret [intro!]: "adds P (ret x)"
  by (simp add: adds_def ret_def)

lemma adds_fatal [intro!]: "adds P (fatal e)"
  by (simp add: adds_def fatal_def)

lemma adds_bind [intro!]:
  assumes "adds P m" and "\<And>x. adds P (f x)"
  shows "adds P (bind m f)"
proof (rule addsI)
  fix s
  obtain r s1 where m: "m s = (r, s1)" by (cases "m s")
  from addsD [OF assms(1), of s] m obtain evs1
    where e1: "trace s1 = trace s @ evs1" "list_all P evs1" by auto
  show "\<exists>evs. trace (snd (bind m f s)) = trace s @ evs \<and> list_all P evs"
  proof (cases r)
    case (Inl e)
    with m e1 show ?thesis by (simp add: bind_def)
  next
    case (Inr x)
    from addsD [OF assms(2), of x s1] obtain evs2
      where "trace (snd (f x s1)) = trace s1 @ evs2" "list_all P evs2" by auto
    with Inr m e1 show ?thesis by (simp add: bind_def)
  qed
qed

lemma adds_if [intro!]: "adds P a \<Longrightarrow> adds P b \<Longrightarrow> adds P (if c then a else b)"
  by simp

lemma adds_NewRequest [intro!]: "adds P (NewRequest env n method url body)"
  by (auto simp: NewRequest_def)

lemma adds_Do [intro!]: "adds is_http (Do env req)"
  by (auto simp: adds_def Do_def split: prod.splits option.splits)

lemma adds_validateStatus [intro!]: "adds P (validateStatus resp acc)"
  by (auto simp: validateStatus_def)

lemma adds_parseResponse [intro!]: "adds P (parseResponse d resp)"
  by (auto simp: parseResponse_def split: option.splits)

lemma adds_GetBranches [intro!]: "adds is_http (GetBranches env n)"
  unfolding GetBranches_def
  by (intro adds_bind adds_if adds_ret adds_NewRequest adds_Do adds_validateStatus
        adds_parseResponse)

lemma adds_GetBranch [intro!]: "adds is_http (GetBranch env n name)"
  unfolding GetBranch_def
  by (intro adds_bind adds_if adds_ret adds_NewRequest adds_Do adds_validateStatus
        adds_parseResponse)

lemma adds_DeleteBranch [intro!]: "adds is_http (DeleteBranch env n name)"
  unfolding DeleteBranch_def by (intro adds_bind adds_NewRequest adds_Do adds_validateStatus)

lemma adds_GetBranchByName [intro!]: "adds is_http (GetBranchByName env n name)"
  unfolding GetBranchByName_def by (auto split: option.splits)

lemma adds_NewCreateBranchRequest [intro!]: "adds P (NewCreateBranchRequest env n b)"
  unfolding NewCreateBranchRequest_def by auto

lemma http_not_callback: "is_http e \<Longrightarrow> \<not> is_callback e"
  by (cases e) simp_all

lemma callbacks_Nil: "list_all (\<lambda>e. \<not> is_callback e) evs \<Longrightarrow> callbacks evs = []"
  by (induction evs rule: callbacks.induct) simp_all

lemma sleeps_Nil: "list_all is_http evs \<Longrightarrow> sleeps evs = []"
  by (induction evs rule: sleeps.induct) simp_all

lemma quietI: "(\<And>s. \<exists>evs. trace (snd (m s)) = trace s @ evs \<and> list_all (\<lambda>e. \<not> is_callback e) evs)
    \<Longrightarrow> quiet m"
  by (simp add: quiet_def adds_def)

lemma quietD: "quiet m \<Longrightarrow> \<exists>evs. trace (snd (m s)) = trace s @ evs \<and> callbacks evs = []"
  unfolding quiet_def using addsD callbacks_Nil by blast

lemma quiet_http: "adds is_http m \<Longrightarrow> quiet m"
  unfolding quiet_def by (erule adds_mono) (rule http_not_callback)

lemma quiet_bind [intro!]: "quiet m \<Longrightarrow> (\<And>x. quiet (f x)) \<Longrightarrow> quiet (bind m f)"
  unfolding quiet_def by (rule adds_bind)

lemma quiet_ret [intro!]: "quiet (ret x)"
  unfolding quiet_def by (rule adds_ret)

lemma quiet_fatal [intro!]: "quiet (fatal e)"
  unfolding quiet_def by (rule adds_fatal)

lemma quiet_GetBranch [intro!]: "quiet (GetBranch env n name)"
  by (rule quiet_http) (rule adds_GetBranch)

lemma quiet_DeleteBranch [intro!]: "quiet (DeleteBranch env n name)"
  by (rule quiet_http) (rule adds_DeleteBranch)

lemma quiet_GetBranchByName [intro!]: "quiet (GetBranchByName env n name)"
  by (rule quiet_http) (rule adds_GetBranchByName)

text \<open>
  One attempt of the retry loop: the request is built and sent. The request is always the
  same one.
\<close>

lemma attempt_eq:
  "bind (NewCreateBranchRequest env n b) (Do env) s =
     (if \<not> url_ok env (BranchesURL n) then (Inl (Fatal_new_request (BranchesURL n)), s)
      else Do env (createRequest n b) s)"
  by (simp add: NewCreateBranchRequest_def NewRequest_def bind_def ret_def fatal_def
        createRequest_def split: prod.splits sum.splits)

lemma attempt_Inr:
  assumes "bind (NewCreateBranchRequest env n b) (Do env) s = (Inr resp, s')"
  shows "trace s' = trace s @ [Ev_Http (createRequest n b) (Some resp)]"
    and "clock s' = clock s"
  using assms
  by (auto simp: attempt_eq Do_def split: if_splits prod.splits option.splits)

lemma attempt_Inl:
  assumes "bind (NewCreateBranchRequest env n b) (Do env) s = (Inl e, s')"
  shows "trace s' = trace s \<or> trace s' = trace s @ [Ev_Http (createRequest n b) None]"
    and "e = Fatal_new_request (BranchesURL n) \<or> e = Fatal_http_client"
  using assms
  by (auto simp: attempt_eq Do_def split: if_splits prod.splits option.splits)

lemma finish_eq:
  "bind (validateStatus resp [StatusOK, StatusCreated])
     (\<lambda>_. parseResponse (decode_BranchCreated env) resp) s =
   (if StatusCode resp = 200 \<or> StatusCode resp = 201 then
      (case decode_BranchCreated env (Response.Body resp) of
         None \<Rightarrow> (Inl Fatal_decode, s) | Some c \<Rightarrow> (Inr c, s))
    else (Inl (Fatal_status (StatusCode resp)), s))"
  by (auto simp: validateStatus_def parseResponse_def bind_def ret_def fatal_def
        StatusOK_def StatusCreated_def split: option.splits)

lemma create_loop_rule [consumes 0, case_names timeout stopped answered locked]:
  fixes env :: "'w Env"
  assumes timeout: "\<And>retry s. \<not> retry \<le> 100 * Millisecond \<Longrightarrow>
            P retry s (Inl (Fatal_create_timeout (clock s - start)), s)"
    and stopped: "\<And>retry s e s'. retry \<le> 100 * Millisecond \<Longrightarrow>
            bind (NewCreateBranchRequest env n
                    \<lparr>CreateBranch.Name = name, ParentID = Branch.ID parent\<rparr>) (Do env) s
              = (Inl e, s') \<Longrightarrow> P retry s (Inl e, s')"
    and answered: "\<And>retry s resp s'. retry \<le> 100 * Millisecond \<Longrightarrow>
            bind (NewCreateBranchRequest env n
                    \<lparr>CreateBranch.Name = name, ParentID = Branch.ID parent\<rparr>) (Do env) s
              = (Inr resp, s') \<Longrightarrow> StatusCode resp \<noteq> StatusLocked \<Longrightarrow>
            P retry s (bind (validateStatus resp [StatusOK, StatusCreated])
                         (\<lambda>_. parseResponse (decode_BranchCreated env) resp) s')"
    and locked: "\<And>retry s resp s'. retry \<le> 100 * Millisecond \<Longrightarrow>
            bind (NewCreateBranchRequest env n
                    \<lparr>CreateBranch.Name = name, ParentID = Branch.ID parent\<rparr>) (Do env) s
              = (Inr resp, s') \<Longrightarrow> StatusCode resp = StatusLocked \<Longrightarrow>
            P (retry + 10) (Sleep retry s')
              (create_loop env n name parent start (retry + 10) (Sleep retry s')) \<Longrightarrow>
            P retry s (create_loop env n name parent start (retry + 10) (Sleep retry s'))"
  shows "P retry s (create_loop env n name parent start retry s)"
  using assms
proof (induction env n name parent start retry s rule: create_loop.induct)
  case (1 env n name parent start retry s)
  let ?m = "bind (NewCreateBranchRequest env n
                    \<lparr>CreateBranch.Name = name, ParentID = Branch.ID parent\<rparr>) (Do env)"
  obtain r s1 where m: "?m s = (r, s1)" by (cases "?m s")
  show ?case
  proof (cases "retry \<le> 100 * Millisecond")
    case False
    with "1.prems"(1) [of retry s] show ?thesis by (simp add: create_loop.simps)
  next
    case le: True
    show ?thesis
    proof (cases r)
      case (Inl e)
      with le m "1.prems"(2) [of retry s e s1] show ?thesis by (simp add: create_loop.simps)
    next
      case (Inr resp)
      show ?thesis
      proof (cases "StatusCode resp = StatusLocked")
        case True
        have "P (retry + 10) (Sleep retry s1)
                (create_loop env n name parent start (retry + 10) (Sleep retry s1))"
          by (rule "1.IH" [OF le m [unfolded Inr, symmetric] refl True]) (fact "1.prems")+
        from "1.prems"(4) [OF le m [unfolded Inr] True this] le m Inr True show ?thesis
          by (simp add: create_loop.simps [of env n name parent start retry s])
      next
        case False
        from "1.prems"(3) [OF le m [unfolded Inr] False] le m Inr False show ?thesis
          by (simp add: create_loop.simps [of env n name parent start retry s])
      qed
    qed
  qed
qed

lemma create_loop_quiet:
  "\<exists>evs. trace (snd (create_loop env n name parent start retry s)) = trace s @ evs
         \<and> list_all (\<lambda>e. \<not> is_callback e) evs"
proof (induction rule: create_loop_rule [where env = env and n = n and name = name
          and parent = parent and start = start and retry = retry and s = s])
  case (timeout retry s)
  then show ?case by simp
next
  case (stopped retry s e s')
  from attempt_Inl(1) [OF stopped(2)] show ?case by auto
next
  case (answered retry s resp s')
  from attempt_Inr(1) [OF answered(2)] show ?case
    by (auto simp: finish_eq split: option.splits)
next
  case (locked retry s resp s')
  from attempt_Inr(1) [OF locked(2)] locked(4) show ?case
    by (auto simp: Sleep_def)
qed

lemma quiet_CreateBranch [intro!]: "quiet (CreateBranch env n name)"
  unfolding CreateBranch_def
  by (intro quiet_bind quiet_GetBranchByName)
     (auto simp: create_loop_quiet intro!: quietI split: option.splits)

lemma quiet_ForcedCreateBranch [intro!]: "quiet (ForcedCreateBranch env n name)"
  unfolding ForcedCreateBranch_def by (auto split: option.splits)

section \<open>The scoped use of a branch\<close>

text \<open>
  Claim C10. \<open>UsingBranch\<close> reads the first element of the creation result's
  \<open>ConnectionURIs\<close> without a guard. When \<open>ForcedCreateBranch\<close> ends the process,
  so does \<open>UsingBranch\<close>, in the same state and without a call of the callback. When it
  returns a result with an empty list, \<open>UsingBranch\<close> panics with an index out of range,
  again in that state and without a call of the callback. When it returns a result with
  a non-empty list, there is no such panic and the next event is the call of the callback
  with the first element.
\<close>

theorem UsingBranch_first_uri:
  "(ForcedCreateBranch env n name s = (Inl e, s1) \<longrightarrow>
      UsingBranch env n name do s = (Inl e, s1)
      \<and> callbacks (trace s1) = callbacks (trace s))
   \<and> (ForcedCreateBranch env n name s = (Inr c, s1) \<and> ConnectionURIs c = [] \<longrightarrow>
        UsingBranch env n name do s = (Inl Panic_index_out_of_range, s1)
        \<and> callbacks (trace s1) = callbacks (trace s))
   \<and> (ForcedCreateBranch env n name s = (Inr c, s1) \<and> ConnectionURIs c \<noteq> [] \<longrightarrow>
        fst (UsingBranch env n name do s) \<noteq> Inl Panic_index_out_of_range
        \<and> (\<exists>evs. trace (snd (UsingBranch env n name do s)) =
                    trace s1 @ Ev_Callback (hd (ConnectionURIs c)) # evs))"
proof (intro conjI impI)
  assume a: "ForcedCreateBranch env n name s = (Inl e, s1)"
  then show "UsingBranch env n name do s = (Inl e, s1)"
    by (simp add: UsingBranch_def bind_Inl)
  from quietD [OF quiet_ForcedCreateBranch, of env n name s] a
  show "callbacks (trace s1) = callbacks (trace s)" by auto
next
  assume a: "ForcedCreateBranch env n name s = (Inr c, s1) \<and> ConnectionURIs c = []"
  then show "UsingBranch env n name do s = (Inl Panic_index_out_of_range, s1)"
    by (simp add: UsingBranch_def bind_Inr fatal_def)
  from quietD [OF quiet_ForcedCreateBranch, of env n name s] a
  show "callbacks (trace s1) = callbacks (trace s)" by auto
next
  assume a: "ForcedCreateBranch env n name s = (Inr c, s1) \<and> ConnectionURIs c \<noteq> []"
  then obtain uri rest where u: "ConnectionURIs c = uri # rest"
    by (cases "ConnectionURIs c") auto
  obtain r s2 where c: "call do uri s1 = (r, s2)" by (cases "call do uri s1")
  then have t2: "trace s2 = trace s1 @ [Ev_Callback uri]"
    by (auto simp: call_def split: option.splits)
  have q: "\<exists>evs. trace (snd (DeleteBranch env n x s2)) = trace s2 @ evs" for x
    using quietD [OF quiet_DeleteBranch, of env n x s2] by auto
  show "fst (UsingBranch env n name do s) \<noteq> Inl Panic_index_out_of_range"
    using a u c
    by (cases r)
       (auto simp: UsingBranch_def bind_Inr bind_Inl call_def DeleteBranch_def NewRequest_def
           Do_def validateStatus_def bind_def ret_def fatal_def
         split: option.splits prod.splits if_splits)
  show "\<exists>evs. trace (snd (UsingBranch env n name do s)) =
                    trace s1 @ Ev_Callback (hd (ConnectionURIs c)) # evs"
  proof (cases r)
    case (Inl e)
    with a u c t2 show ?thesis by (simp add: UsingBranch_def bind_Inr bind_Inl)
  next
    case (Inr x)
    with a u c t2 q show ?thesis
      by (auto simp: UsingBranch_def bind_Inr ret_def)
  qed
qed

theorem UsingBranch_first_uri_witness:
  "fst (UsingBranch noURIsEnv client0 ''foo'' noop (proc0 (remote0 0))) =
     Inl Panic_index_out_of_range
   \<and> callbacks (trace (snd (UsingBranch noURIsEnv client0 ''foo'' noop (proc0 (remote0 0))))) = []
   \<and> (\<exists>evs. trace (snd (UsingBranch serviceEnv client0 ''foo'' noop (proc0 (remote0 0)))) =
         trace (snd (ForcedCreateBranch serviceEnv client0 ''foo'' (proc0 (remote0 0)))) @
         Ev_Callback (newConnectionURI
            (newBranch ''p1'' \<lparr>CreateBranch.Name = ''foo'', ParentID = ''br-main''\<rparr>)) # evs)"
proof -
  let ?s = "proc0 (remote0 0) :: Remote proc"
  let ?b = "newBranch ''p1'' \<lparr>CreateBranch.Name = ''foo'', ParentID = ''br-main''\<rparr>"
  have "fst (ForcedCreateBranch noURIsEnv client0 ''foo'' ?s) =
          Inr ((creationResult ?b)\<lparr>ConnectionURIs := []\<rparr>)"
    by (simp add: noURIsEnv_def run_defs service_defs create_loop.simps)
  then have e: "ForcedCreateBranch noURIsEnv client0 ''foo'' ?s =
         (Inr ((creationResult ?b)\<lparr>ConnectionURIs := []\<rparr>),
          snd (ForcedCreateBranch noURIsEnv client0 ''foo'' ?s))"
    by (metis prod.collapse)
  have "fst (ForcedCreateBranch serviceEnv client0 ''foo'' ?s) = Inr (creationResult ?b)"
    by (simp add: run_defs service_defs create_loop.simps)
  then have f: "ForcedCreateBranch serviceEnv client0 ''foo'' ?s =
         (Inr (creationResult ?b), snd (ForcedCreateBranch serviceEnv client0 ''foo'' ?s))"
    by (metis prod.collapse)
  have t0: "callbacks (trace ?s) = []" by (simp add: proc0_def)
  from UsingBranch_first_uri [of noURIsEnv client0 "''foo''" ?s _ _ noop
          "(creationResult ?b)\<lparr>ConnectionURIs := []\<rparr>"] e t0
  have 1: "fst (UsingBranch noURIsEnv client0 ''foo'' noop ?s) = Inl Panic_index_out_of_range"
     and 2: "callbacks (trace (snd (UsingBranch noURIsEnv client0 ''foo'' noop ?s))) = []"
    by simp_all
  from UsingBranch_first_uri [of serviceEnv client0 "''foo''" ?s _ _ noop "creationResult ?b"] f
  have 3: "\<exists>evs. trace (snd (UsingBranch serviceEnv client0 ''foo'' noop ?s)) =
         trace (snd (ForcedCreateBranch serviceEnv client0 ''foo'' ?s)) @
         Ev_Callback (newConnectionURI ?b) # evs"
    by (simp add: creationResult_def)
  from 1 2 3 show ?thesis by simp
qed

text \<open>
  Claim C5. For a client with \<open>NoCleanup\<close> set, when the branch has been created and the
  callback has returned, \<open>UsingBranch\<close> returns in the very state the callback left: the
  call of the callback is the last event, so no request (no \<open>DeleteBranch\<close>) follows it
  and the remote service is as the callback left it. (In the run below, on the modelled
  service, the created branch is still there afterwards.)
\<close>

theorem UsingBranch_no_cleanup:
  assumes "NoCleanup n"
      and "ForcedCreateBranch env n name s = (Inr c, s1)"
      and "ConnectionURIs c = uri # rest"
      and "call do uri s1 = (Inr (), s2)"
  shows "UsingBranch env n name do s = (Inr (), s2)
       \<and> trace s2 = trace s1 @ [Ev_Callback uri]
       \<and> do uri (remote s1) = Some (remote s2)"
  using assms
  by (auto simp: UsingBranch_def bind_Inr ret_def call_def split: option.splits)

theorem UsingBranch_no_cleanup_witness:
  "list_ex (\<lambda>b. Branch.Name b = ''foo'')
     (branches (remote (snd (UsingBranch serviceEnv (client0\<lparr>NoCleanup := True\<rparr>) ''foo'' noop
        (proc0 (remote0 0))))))
   \<and> last (trace (snd (UsingBranch serviceEnv (client0\<lparr>NoCleanup := True\<rparr>) ''foo'' noop
        (proc0 (remote0 0))))) =
      Ev_Callback (newConnectionURI
         (newBranch ''p1'' \<lparr>CreateBranch.Name = ''foo'', ParentID = ''br-main''\<rparr>))"
proof -
  let ?s = "proc0 (remote0 0) :: Remote proc"
  let ?n = "client0\<lparr>NoCleanup := True\<rparr>"
  let ?b = "newBranch ''p1'' \<lparr>CreateBranch.Name = ''foo'', ParentID = ''br-main''\<rparr>"
  let ?s1 = "snd (ForcedCreateBranch serviceEnv ?n ''foo'' ?s)"
  have n: "NoCleanup ?n" by simp
  have "fst (ForcedCreateBranch serviceEnv ?n ''foo'' ?s) = Inr (creationResult ?b)"
    and r1: "list_ex (\<lambda>b. Branch.Name b = ''foo'') (branches (remote ?s1))"
    by (simp_all add: run_defs service_defs create_loop.simps)
  then have f: "ForcedCreateBranch serviceEnv ?n ''foo'' ?s = (Inr (creationResult ?b), ?s1)"
    by (metis prod.collapse)
  have u: "ConnectionURIs (creationResult ?b) = newConnectionURI ?b # []"
    by (simp add: creationResult_def)
  have c: "call noop (newConnectionURI ?b) ?s1 =
             (Inr (), ?s1\<lparr>trace := trace ?s1 @ [Ev_Callback (newConnectionURI ?b)]\<rparr>)"
    by (simp add: call_def noop_def)
  from UsingBranch_no_cleanup [OF n f u c] r1 show ?thesis by simp
qed

lemma call_trace: "call do uri s = (r, s') \<Longrightarrow> trace s' = trace s @ [Ev_Callback uri]"
  by (auto simp: call_def split: option.splits)

lemma UsingBranch_callbacks:
  "\<exists>evs. trace (snd (UsingBranch env n name do s)) = trace s @ evs \<and> length (callbacks evs) \<le> 1"
proof -
  obtain r s1 where f: "ForcedCreateBranch env n name s = (r, s1)"
    by (cases "ForcedCreateBranch env n name s")
  from quietD [OF quiet_ForcedCreateBranch, of env n name s] f obtain evs1
    where e1: "trace s1 = trace s @ evs1" "callbacks evs1 = []" by auto
  show ?thesis
  proof (cases r)
    case (Inl e)
    with f e1 show ?thesis by (simp add: UsingBranch_def bind_Inl)
  next
    case (Inr c)
    show ?thesis
    proof (cases "ConnectionURIs c")
      case Nil
      with Inr f e1 show ?thesis by (simp add: UsingBranch_def bind_Inr fatal_def)
    next
      case (Cons uri rest)
      obtain r2 s2 where c: "call do uri s1 = (r2, s2)" by (cases "call do uri s1")
      note t2 = call_trace [OF c]
      show ?thesis
      proof (cases r2)
        case (Inl e)
        with Inr Cons f c have "UsingBranch env n name do s = (Inl e, s2)"
          by (simp add: UsingBranch_def bind_Inr bind_Inl)
        with e1 t2 have "trace (snd (UsingBranch env n name do s)) = trace s @ (evs1 @ [Ev_Callback uri])
            \<and> length (callbacks (evs1 @ [Ev_Callback uri])) \<le> 1" by simp
        then show ?thesis by blast
      next
        case r2: (Inr u)
        let ?m = "if \<not> NoCleanup n
                  then DeleteBranch env n (Branch.ID (BranchCreated.Branch c)) else ret ()"
        have "quiet ?m" by auto
        from quietD [OF this, of s2] obtain evs3
          where e3: "trace (snd (?m s2)) = trace s2 @ evs3" "callbacks evs3 = []" by auto
        from Inr Cons f c r2 have "UsingBranch env n name do s = ?m s2"
          by (simp add: UsingBranch_def bind_Inr)
        with e1 t2 e3 have "trace (snd (UsingBranch env n name do s)) =
              trace s @ (evs1 @ Ev_Callback uri # evs3)
            \<and> length (callbacks (evs1 @ Ev_Callback uri # evs3)) \<le> 1" by simp
        then show ?thesis by blast
      qed
    qed
  qed
qed

text \<open>
  Claim C4. In every run \<open>UsingBranch\<close> calls the callback at most once. Let
  \<open>ForcedCreateBranch\<close> return a creation result with first connection URI \<open>uri\<close>, in
  the state \<open>s1\<close>. Up to then the callback has not been called. \<open>UsingBranch\<close> then
  applies the callback to \<open>uri\<close> and the service as it is in \<open>s1\<close>. If the callback does
  not return, the process ends there and nothing is deleted. If it returns, leaving the
  service as \<open>w\<close>, the callback has been called exactly once over the whole run; with
  cleanup suppressed \<open>UsingBranch\<close> returns at once, and otherwise what remains is one
  \<open>DeleteBranch\<close> with the identifier of the created branch, started on \<open>w\<close>: (the URL
  being acceptable) exactly one request follows the call of the callback, the \<^verbatim>\<open>DELETE\<close>
  of the branch URL of that identifier, and it is sent to the service as the callback left
  it.
\<close>

theorem UsingBranch_cleanup:
  "(\<exists>evs. trace (snd (UsingBranch env n name do s)) = trace s @ evs
        \<and> length (callbacks evs) \<le> 1)
   \<and> (ForcedCreateBranch env n name s = (Inr c, s1) \<and> ConnectionURIs c = uri # rest \<longrightarrow>
        callbacks (trace s1) = callbacks (trace s)
        \<and> (do uri (remote s1) = None \<longrightarrow>
             UsingBranch env n name do s =
               (Inl Callback_aborted, s1\<lparr>trace := trace s1 @ [Ev_Callback uri]\<rparr>))
        \<and> (do uri (remote s1) = Some w \<longrightarrow>
             callbacks (trace (snd (UsingBranch env n name do s))) =
               callbacks (trace s) @ [uri]
             \<and> (NoCleanup n \<longrightarrow>
                  UsingBranch env n name do s =
                    (Inr (), s1\<lparr>remote := w, trace := trace s1 @ [Ev_Callback uri]\<rparr>))
             \<and> (\<not> NoCleanup n \<longrightarrow>
                  UsingBranch env n name do s =
                    DeleteBranch env n (Branch.ID (BranchCreated.Branch c))
                      (s1\<lparr>remote := w, trace := trace s1 @ [Ev_Callback uri]\<rparr>)
                  \<and> (url_ok env (BranchURL n (Branch.ID (BranchCreated.Branch c))) \<longrightarrow>
                       (\<exists>req. Method req = ''DELETE''
                          \<and> URL req = BranchURL n (Branch.ID (BranchCreated.Branch c))
                          \<and> trace (snd (UsingBranch env n name do s)) =
                              trace s1 @ [Ev_Callback uri,
                                          Ev_Http req (fst (transport env w req))]
                          \<and> remote (snd (UsingBranch env n name do s)) =
                              snd (transport env w req))))))"
proof (intro conjI impI)
  show "\<exists>evs. trace (snd (UsingBranch env n name do s)) = trace s @ evs
        \<and> length (callbacks evs) \<le> 1"
    by (rule UsingBranch_callbacks)
next
  assume a: "ForcedCreateBranch env n name s = (Inr c, s1) \<and> ConnectionURIs c = uri # rest"
  let ?id = "Branch.ID (BranchCreated.Branch c)"
  let ?s2 = "s1\<lparr>remote := w, trace := trace s1 @ [Ev_Callback uri]\<rparr>"
  from quietD [OF quiet_ForcedCreateBranch, of env n name s] a
  show q: "callbacks (trace s1) = callbacks (trace s)" by auto
  {
    assume "do uri (remote s1) = None"
    with a show "UsingBranch env n name do s =
               (Inl Callback_aborted, s1\<lparr>trace := trace s1 @ [Ev_Callback uri]\<rparr>)"
      by (simp add: UsingBranch_def bind_Inr call_def bind_def)
  }
  {
    assume d: "do uri (remote s1) = Some w"
    then have c: "call do uri s1 = (Inr (), ?s2)" by (simp add: call_def)
    with a have u: "UsingBranch env n name do s =
        (if \<not> NoCleanup n then DeleteBranch env n ?id ?s2 else (Inr (), ?s2))"
      by (simp add: UsingBranch_def bind_Inr ret_def)
    have "quiet (if \<not> NoCleanup n then DeleteBranch env n ?id else ret ())" by auto
    from quietD [OF this, of ?s2] q
    show "callbacks (trace (snd (UsingBranch env n name do s))) = callbacks (trace s) @ [uri]"
      unfolding u by (auto simp: ret_def)
    {
      assume "NoCleanup n"
      with u show "UsingBranch env n name do s = (Inr (), ?s2)" by simp
    }
    {
      assume nc: "\<not> NoCleanup n"
      with u show u': "UsingBranch env n name do s = DeleteBranch env n ?id ?s2" by simp
      {
        assume ok: "url_ok env (BranchURL n ?id)"
        let ?req = "builtRequest n ''DELETE'' (BranchURL n ?id) None"
        have "Method ?req = ''DELETE'' \<and> URL ?req = BranchURL n ?id
            \<and> trace (snd (UsingBranch env n name do s)) =
                trace s1 @ [Ev_Callback uri, Ev_Http ?req (fst (transport env w ?req))]
            \<and> remote (snd (UsingBranch env n name do s)) = snd (transport env w ?req)"
          unfolding u' using ok
          by (cases "transport env w ?req")
             (auto simp: DeleteBranch_def builtRequest_def NewRequest_def Do_def bind_def
                ret_def fatal_def validateStatus_def split: option.splits)
        then show "\<exists>req. Method req = ''DELETE'' \<and> URL req = BranchURL n ?id
            \<and> trace (snd (UsingBranch env n name do s)) =
                trace s1 @ [Ev_Callback uri, Ev_Http req (fst (transport env w req))]
            \<and> remote (snd (UsingBranch env n name do s)) = snd (transport env w req)"
          by blast
      }
    }
  }
qed

theorem UsingBranch_cleanup_witness:
  "UsingBranch serviceEnv client0 ''foo'' touch (proc0 (remote0 0)) =
     DeleteBranch serviceEnv client0 ''br-foo''
       ((snd (ForcedCreateBranch serviceEnv client0 ''foo'' (proc0 (remote0 0))))
          \<lparr>remote := \<lparr>project = ''p1'',
                       branches = [mainBranch,
                         newBranch ''p1'' \<lparr>CreateBranch.Name = ''foo'', ParentID = ''br-main''\<rparr>],
                       locked = 1\<rparr>,
           trace := trace (snd (ForcedCreateBranch serviceEnv client0 ''foo'' (proc0 (remote0 0))))
                    @ [Ev_Callback (newConnectionURI
                         (newBranch ''p1'' \<lparr>CreateBranch.Name = ''foo'',
                                            ParentID = ''br-main''\<rparr>))]\<rparr>)
   \<and> callbacks (trace (snd (UsingBranch serviceEnv client0 ''foo'' touch (proc0 (remote0 0))))) =
     [newConnectionURI (newBranch ''p1'' \<lparr>CreateBranch.Name = ''foo'', ParentID = ''br-main''\<rparr>)]
   \<and> (\<exists>req resp. last (trace (snd (UsingBranch serviceEnv client0 ''foo'' touch
                                     (proc0 (remote0 0))))) = Ev_Http req resp
        \<and> Method req = ''DELETE'' \<and> URL req = BranchURL client0 ''br-foo'')"
proof -
  let ?s = "proc0 (remote0 0) :: Remote proc"
  let ?b = "newBranch ''p1'' \<lparr>CreateBranch.Name = ''foo'', ParentID = ''br-main''\<rparr>"
  let ?s1 = "snd (ForcedCreateBranch serviceEnv client0 ''foo'' ?s)"
  let ?w = "\<lparr>project = ''p1'', branches = [mainBranch, ?b], locked = 1\<rparr>"
  have n: "\<not> NoCleanup client0" by (simp add: client0_def)
  have "fst (ForcedCreateBranch serviceEnv client0 ''foo'' ?s) = Inr (creationResult ?b)"
    and r: "remote ?s1 = \<lparr>project = ''p1'', branches = [mainBranch, ?b], locked = 0\<rparr>"
    by (simp_all add: run_defs service_defs create_loop.simps)
  then have f: "ForcedCreateBranch serviceEnv client0 ''foo'' ?s = (Inr (creationResult ?b), ?s1)"
    by (metis prod.collapse)
  have u: "ConnectionURIs (creationResult ?b) = newConnectionURI ?b # []"
    by (simp add: creationResult_def)
  have d: "touch (newConnectionURI ?b) (remote ?s1) = Some ?w"
    by (simp add: touch_def r)
  have i: "Branch.ID (BranchCreated.Branch (creationResult ?b)) = ''br-foo''"
    by (simp add: creationResult_def newBranch_def)
  have ok: "url_ok serviceEnv (BranchURL client0 ''br-foo'')"
    by (simp add: serviceEnv_def target_def is_ctl_def Let_def BranchURL_def client0_def)
  have t0: "callbacks (trace ?s) = []" by (simp add: proc0_def)
  note T = UsingBranch_cleanup [of serviceEnv client0 "''foo''" touch ?s "creationResult ?b" ?s1
         "newConnectionURI ?b" "[]" ?w, THEN conjunct2, THEN mp, OF conjI [OF f u],
         THEN conjunct2, THEN conjunct2, THEN mp, OF d]
  from T [THEN conjunct1] t0
  have 1: "callbacks (trace (snd (UsingBranch serviceEnv client0 ''foo'' touch ?s))) =
      [newConnectionURI ?b]" by simp
  note D = T [THEN conjunct2, THEN conjunct2, THEN mp, OF n, unfolded i]
  from D [THEN conjunct2, THEN mp, OF ok] obtain req where
    "Method req = ''DELETE''" "URL req = BranchURL client0 ''br-foo''"
    "trace (snd (UsingBranch serviceEnv client0 ''foo'' touch ?s)) =
       trace ?s1 @ [Ev_Callback (newConnectionURI ?b),
                    Ev_Http req (fst (transport serviceEnv ?w req))]"
    by (elim exE conjE)
  then have 2: "\<exists>req resp. last (trace (snd (UsingBranch serviceEnv client0 ''foo'' touch ?s))) =
        Ev_Http req resp \<and> Method req = ''DELETE'' \<and> URL req = BranchURL client0 ''br-foo''"
    by simp
  from D [THEN conjunct1] 1 2 show ?thesis by simp
qed

section \<open>Looking a branch up by name\<close>

lemma scanBranches_None: "scanBranches bs name = None \<longleftrightarrow> (\<forall>b \<in> set bs. Branch.Name b \<noteq> name)"
  by (induction bs) auto

lemma scanBranches_Some:
  "scanBranches bs name = Some b \<Longrightarrow> b \<in> set bs \<and> Branch.Name b = name"
  by (induction bs) (auto split: if_splits)

lemma GetBranchByName_list:
  "GetBranches env n s = (Inr (Some bs), s') \<Longrightarrow>
     GetBranchByName env n name s = (Inr (scanBranches (Branches bs) name), s')"
  by (simp add: GetBranchByName_def bind_Inr ret_def)

lemma GetBranchByName_nil:
  "GetBranches env n s = (Inr None, s') \<Longrightarrow>
     GetBranchByName env n name s = (Inl Panic_nil_dereference, s')"
  by (simp add: GetBranchByName_def bind_Inr fatal_def)

text \<open>
  Claim C2, at the input where it fails. A client for project \<open>p2\<close> asks the service,
  which answers 404 for that project. \<open>GetBranches\<close> returns absence, and
  \<open>GetBranchByName\<close> then reads the field \<open>Branches\<close> through that \<^verbatim>\<open>nil\<close> pointer:
  it panics instead of returning absence. (When \<open>GetBranches\<close> returns a list, the scan
  returns the first branch of that name, and absence exactly when there is none: lemmas
  \<open>GetBranchByName_list\<close> and \<open>scanBranches_None\<close>.)
\<close>

theorem GetBranchByName_not_found_panics:
  "fst (GetBranches serviceEnv (client0\<lparr>ProjectID := ''p2''\<rparr>) (proc0 (remote0 0))) = Inr None
   \<and> fst (GetBranchByName serviceEnv (client0\<lparr>ProjectID := ''p2''\<rparr>) ''main'' (proc0 (remote0 0)))
       = Inl Panic_nil_dereference"
proof -
  have "fst (GetBranches serviceEnv (client0\<lparr>ProjectID := ''p2''\<rparr>) (proc0 (remote0 0))) = Inr None"
    by (simp add: run_defs service_defs)
  then show ?thesis
    using GetBranchByName_nil [of serviceEnv "client0\<lparr>ProjectID := ''p2''\<rparr>" "proc0 (remote0 0)"
             "snd (GetBranches serviceEnv (client0\<lparr>ProjectID := ''p2''\<rparr>) (proc0 (remote0 0)))"
             "''main''"]
    by (metis fst_conv prod.collapse)
qed

section \<open>Creating a branch\<close>

text \<open>
  Claim C1, at an input where it fails. The service refuses the first ten creation
  requests as locked and accepts the eleventh. The loop variable grows by ten nanoseconds
  per attempt, so after ten attempts it is far below the bound of 100 ms: \<open>CreateBranch\<close>
  makes an eleventh attempt and returns its result. It has slept ten times, each time ten
  milliseconds and a few nanoseconds.
\<close>

theorem CreateBranch_ten_locked_then_created:
  "(case CreateBranch serviceEnv client0 ''foo'' (proc0 (remote0 10)) of
      (result, s') \<Rightarrow>
        result = Inr (creationResult
                   (newBranch ''p1'' \<lparr>CreateBranch.Name = ''foo'', ParentID = ''br-main''\<rparr>))
        \<and> statuses (trace s') = [200, 423, 423, 423, 423, 423, 423, 423, 423, 423, 423, 201]
        \<and> sleeps (trace s') =
            [10000000, 10000010, 10000020, 10000030, 10000040, 10000050, 10000060, 10000070,
             10000080, 10000090])"
  by (simp add: run_defs service_defs create_loop.simps)

text \<open>
  The bound the loop really has: when \<open>CreateBranch\<close> gives up with the elapsed time, it
  has slept 9000001 times, the \<open>i\<close>-th time for ten milliseconds and \<open>10 * i\<close>
  nanoseconds.
\<close>

lemma create_loop_timeout_sleeps:
  "(\<exists>d. fst (create_loop env n name parent start retry s) = Inl (Fatal_create_timeout d)) \<longrightarrow>
     sleeps (trace (snd (create_loop env n name parent start retry s))) =
       sleeps (trace s) @
       map (\<lambda>i. retry + 10 * int i) [0..<nat ((100 * Millisecond + 10 - retry) div 10)]"
proof (induction rule: create_loop_rule [where env = env and n = n and name = name
          and parent = parent and start = start and retry = retry and s = s])
  case (timeout retry s)
  then have "(100 * Millisecond + 10 - retry) div 10 \<le> 0" by simp
  then show ?case by simp
next
  case (stopped retry s e s')
  from attempt_Inl(2) [OF stopped(2)] show ?case by auto
next
  case (answered retry s resp s')
  show ?case by (auto simp: finish_eq split: option.splits)
next
  case (locked retry s resp s')
  let ?k = "nat ((100 * Millisecond + 10 - (retry + 10)) div 10)"
  from locked(1) have k: "nat ((100 * Millisecond + 10 - retry) div 10) = Suc ?k"
    by (simp add: Millisecond_def)
  have t: "sleeps (trace (Sleep retry s')) = sleeps (trace s) @ [retry]"
    using attempt_Inr(1) [OF locked(2)] by (simp add: Sleep_def)
  have m: "map (\<lambda>i. retry + 10 * int i) [0..<Suc ?k] =
             retry # map (\<lambda>i. retry + 10 + 10 * int i) [0..<?k]"
    by (simp add: map_upt_Suc del: upt_Suc)
  from locked(4) show ?case
    unfolding k m t by simp
qed

lemma CreateBranch_timeout_attempts:
  assumes "fst (CreateBranch env n name s) = Inl (Fatal_create_timeout d)"
  shows "\<exists>evs. trace (snd (CreateBranch env n name s)) = trace s @ evs
           \<and> length (sleeps evs) = 9000001
           \<and> (\<forall>i < 9000001. sleeps evs ! i = 10 * Millisecond + 10 * int i)"
proof -
  let ?g = "GetBranchByName env n (Client.Branch n)"
  define K where "K = nat ((100 * Millisecond + 10 - 10 * Millisecond) div 10)"
  have K: "K = 9000001" by (simp add: K_def Millisecond_def)
  obtain r s1 where g: "?g s = (r, s1)" by (cases "?g s")
  from addsD [OF adds_GetBranchByName, of env n "Client.Branch n" s] g obtain evs1
    where e1: "trace s1 = trace s @ evs1" "sleeps evs1 = []"
    by (auto dest: sleeps_Nil)
  show ?thesis
  proof (cases r)
    case (Inl e)
    with g assms show ?thesis
      by (auto simp: CreateBranch_def bind_Inl GetBranchByName_def GetBranches_def NewRequest_def
            Do_def validateStatus_def parseResponse_def bind_def ret_def fatal_def
          split: if_splits prod.splits option.splits sum.splits)
  next
    case (Inr x)
    show ?thesis
    proof (cases x)
      case None
      with Inr g assms show ?thesis by (simp add: CreateBranch_def bind_Inr fatal_def)
    next
      case (Some p)
      let ?out = "create_loop env n name p (clock s1) (10 * Millisecond) s1"
      from Some Inr g have c: "CreateBranch env n name s = ?out"
        by (simp add: CreateBranch_def bind_Inr)
      obtain evs2 where e2: "trace (snd ?out) = trace s1 @ evs2"
        using create_loop_quiet [of env n name p "clock s1" "10 * Millisecond" s1] by blast
      from assms c create_loop_timeout_sleeps [of env n name p "clock s1" "10 * Millisecond" s1]
      have "sleeps (trace (snd ?out)) = sleeps (trace s1) @
              map (\<lambda>i. 10 * Millisecond + 10 * int i) [0..<K]"
        unfolding K_def by auto
      then have "sleeps evs2 = map (\<lambda>i. 10 * Millisecond + 10 * int i) [0..<K]"
        unfolding e2 by simp
      then have "length (sleeps evs2) = K
          \<and> (\<forall>i < K. sleeps evs2 ! i = 10 * Millisecond + 10 * int i)"
        by simp
      with e1 e2 have "trace (snd (CreateBranch env n name s)) = trace s @ (evs1 @ evs2)
           \<and> length (sleeps (evs1 @ evs2)) = K
           \<and> (\<forall>i < K. sleeps (evs1 @ evs2) ! i = 10 * Millisecond + 10 * int i)"
        unfolding c by simp
      then show ?thesis unfolding K by blast
    qed
  qed
qed

lemma create_loop_requests:
  "\<exists>evs. trace (snd (create_loop env n name parent start retry s)) = trace s @ evs
     \<and> (\<forall>req \<in> set (requests evs).
           req = createRequest n \<lparr>CreateBranch.Name = name, ParentID = Branch.ID parent\<rparr>)
     \<and> (\<forall>c. fst (create_loop env n name parent start retry s) = Inr c \<longrightarrow>
           (\<exists>req resp evs'. evs = evs' @ [Ev_Http req (Some resp)]
              \<and> (StatusCode resp = 200 \<or> StatusCode resp = 201)
              \<and> decode_BranchCreated env (Response.Body resp) = Some c))
     \<and> (\<forall>req resp. Ev_Http req (Some resp) \<in> set evs \<and> StatusCode resp \<noteq> 423
              \<and> StatusCode resp \<noteq> 200 \<and> StatusCode resp \<noteq> 201 \<longrightarrow>
           fst (create_loop env n name parent start retry s) = Inl (Fatal_status (StatusCode resp)))"
proof (induction rule: create_loop_rule [where env = env and n = n and name = name
          and parent = parent and start = start and retry = retry and s = s])
  case (timeout retry s)
  then show ?case by simp
next
  case (stopped retry s e s')
  from attempt_Inl(1) [OF stopped(2)] show ?case by auto
next
  case (answered retry s resp s')
  from attempt_Inr(1) [OF answered(2)] answered(3) show ?case
    by (auto simp: finish_eq StatusLocked_def split: option.splits)
next
  case (locked retry s resp s')
  let ?out = "create_loop env n name parent start (retry + 10) (Sleep retry s')"
  let ?creq = "createRequest n \<lparr>CreateBranch.Name = name, ParentID = Branch.ID parent\<rparr>"
  from locked(4) obtain evs where
    t: "trace (snd ?out) = trace (Sleep retry s') @ evs"
    and a: "\<forall>req \<in> set (requests evs). req = ?creq"
    and b: "\<forall>c. fst ?out = Inr c \<longrightarrow>
           (\<exists>req resp evs'. evs = evs' @ [Ev_Http req (Some resp)]
              \<and> (StatusCode resp = 200 \<or> StatusCode resp = 201)
              \<and> decode_BranchCreated env (Response.Body resp) = Some c)"
    and c: "\<forall>req resp. Ev_Http req (Some resp) \<in> set evs \<and> StatusCode resp \<noteq> 423
              \<and> StatusCode resp \<noteq> 200 \<and> StatusCode resp \<noteq> 201 \<longrightarrow>
           fst ?out = Inl (Fatal_status (StatusCode resp))"
    by (elim exE conjE)
  let ?evs = "Ev_Http ?creq (Some resp) # Ev_Sleep retry # evs"
  have t': "trace (snd ?out) = trace s @ ?evs"
    using t attempt_Inr(1) [OF locked(2)] by (simp add: Sleep_def)
  have a': "\<forall>req \<in> set (requests ?evs). req = ?creq" using a by simp
  have b': "\<forall>c. fst ?out = Inr c \<longrightarrow>
           (\<exists>req resp evs'. ?evs = evs' @ [Ev_Http req (Some resp)]
              \<and> (StatusCode resp = 200 \<or> StatusCode resp = 201)
              \<and> decode_BranchCreated env (Response.Body resp) = Some c)"
  proof (intro allI impI)
    fix c assume "fst ?out = Inr c"
    with b obtain req r evs' where "evs = evs' @ [Ev_Http req (Some r)]"
      "StatusCode r = 200 \<or> StatusCode r = 201"
      "decode_BranchCreated env (Response.Body r) = Some c" by blast
    then have "?evs = (Ev_Http ?creq (Some resp) # Ev_Sleep retry # evs') @ [Ev_Http req (Some r)]
       \<and> (StatusCode r = 200 \<or> StatusCode r = 201)
       \<and> decode_BranchCreated env (Response.Body r) = Some c" by simp
    then show "\<exists>req resp evs'. ?evs = evs' @ [Ev_Http req (Some resp)]
              \<and> (StatusCode resp = 200 \<or> StatusCode resp = 201)
              \<and> decode_BranchCreated env (Response.Body resp) = Some c" by blast
  qed
  have c': "\<forall>req r. Ev_Http req (Some r) \<in> set ?evs \<and> StatusCode r \<noteq> 423
              \<and> StatusCode r \<noteq> 200 \<and> StatusCode r \<noteq> 201 \<longrightarrow>
           fst ?out = Inl (Fatal_status (StatusCode r))"
    using c locked(3) by (auto simp: StatusLocked_def)
  from t' a' b' c' show ?case by blast
qed

lemma GetBranchByName_Some_name:
  assumes "GetBranchByName env n name s = (Inr (Some b), s')"
  shows "Branch.Name b = name"
proof -
  obtain r s1 where g: "GetBranches env n s = (r, s1)" by (cases "GetBranches env n s")
  show ?thesis
  proof (cases r)
    case (Inl e)
    with g assms show ?thesis by (simp add: GetBranchByName_def bind_Inl)
  next
    case (Inr x)
    with g assms show ?thesis
      by (cases x)
         (auto simp: GetBranchByName_def bind_Inr ret_def fatal_def dest: scanBranches_Some)
  qed
qed

text \<open>
  Claim C7. \<open>CreateBranch\<close> first looks the parent up with \<open>GetBranchByName\<close> on the
  client's \<open>Branch\<close>. If the lookup ends the process, so does \<open>CreateBranch\<close>; if it
  finds no branch, \<open>CreateBranch\<close> ends the process with the parent-not-found error, in
  the state the lookup left, so without a creation request. If it finds a parent (whose name
  is the client's \<open>Branch\<close>), then every request sent afterwards is a \<^verbatim>\<open>POST\<close> to the
  branches URL whose body has exactly one endpoint, of type \<open>read_write\<close>, the given name
  and the parent's identifier; a returned creation result is the decoded body of the last
  response, whose status is 200 or 201; and a response whose status is none of 423, 200
  and 201 ends the process with the unexpected-status error.
\<close>

theorem CreateBranch_parent_request_status:
  "(GetBranchByName env n (Client.Branch n) s = (Inl e, s1) \<longrightarrow>
      CreateBranch env n name s = (Inl e, s1))
   \<and> (GetBranchByName env n (Client.Branch n) s = (Inr None, s1) \<longrightarrow>
      CreateBranch env n name s = (Inl (Fatal_parent_not_found name (Client.Branch n)), s1))
   \<and> (GetBranchByName env n (Client.Branch n) s = (Inr (Some parent), s1) \<longrightarrow>
      Branch.Name parent = Client.Branch n
      \<and> (\<exists>evs. trace (snd (CreateBranch env n name s)) = trace s1 @ evs
            \<and> (\<forall>req \<in> set (requests evs).
                  Method req = ''POST'' \<and> URL req = BranchesURL n
                  \<and> Request.Body req =
                      Some \<lparr>CreateBranchRequest.Endpoints = [\<lparr>CreateEndpoint.Type = ''read_write''\<rparr>],
                            Branch = \<lparr>CreateBranch.Name = name,
                                      ParentID = Branch.ID parent\<rparr>\<rparr>)
            \<and> (\<forall>c. fst (CreateBranch env n name s) = Inr c \<longrightarrow>
                  (\<exists>req resp evs'. evs = evs' @ [Ev_Http req (Some resp)]
                     \<and> (StatusCode resp = 200 \<or> StatusCode resp = 201)
                     \<and> decode_BranchCreated env (Response.Body resp) = Some c))
            \<and> (\<forall>req resp. Ev_Http req (Some resp) \<in> set evs \<and> StatusCode resp \<noteq> 423
                     \<and> StatusCode resp \<noteq> 200 \<and> StatusCode resp \<noteq> 201 \<longrightarrow>
                  fst (CreateBranch env n name s) = Inl (Fatal_status (StatusCode resp)))))"
proof (intro conjI impI)
  assume "GetBranchByName env n (Client.Branch n) s = (Inl e, s1)"
  then show "CreateBranch env n name s = (Inl e, s1)"
    by (simp add: CreateBranch_def bind_Inl)
next
  assume "GetBranchByName env n (Client.Branch n) s = (Inr None, s1)"
  then show "CreateBranch env n name s =
      (Inl (Fatal_parent_not_found name (Client.Branch n)), s1)"
    by (simp add: CreateBranch_def bind_Inr fatal_def)
next
  assume g: "GetBranchByName env n (Client.Branch n) s = (Inr (Some parent), s1)"
  then show "Branch.Name parent = Client.Branch n"
    by (rule GetBranchByName_Some_name)
  from g have c: "CreateBranch env n name s =
      create_loop env n name parent (clock s1) (10 * Millisecond) s1"
    by (simp add: CreateBranch_def bind_Inr)
  from create_loop_requests [of env n name parent "clock s1" "10 * Millisecond" s1]
  show "\<exists>evs. trace (snd (CreateBranch env n name s)) = trace s1 @ evs
            \<and> (\<forall>req \<in> set (requests evs).
                  Method req = ''POST'' \<and> URL req = BranchesURL n
                  \<and> Request.Body req =
                      Some \<lparr>CreateBranchRequest.Endpoints = [\<lparr>CreateEndpoint.Type = ''read_write''\<rparr>],
                            Branch = \<lparr>CreateBranch.Name = name,
                                      ParentID = Branch.ID parent\<rparr>\<rparr>)
            \<and> (\<forall>c. fst (CreateBranch env n name s) = Inr c \<longrightarrow>
                  (\<exists>req resp evs'. evs = evs' @ [Ev_Http req (Some resp)]
                     \<and> (StatusCode resp = 200 \<or> StatusCode resp = 201)
                     \<and> decode_BranchCreated env (Response.Body resp) = Some c))
            \<and> (\<forall>req resp. Ev_Http req (Some resp) \<in> set evs \<and> StatusCode resp \<noteq> 423
                     \<and> StatusCode resp \<noteq> 200 \<and> StatusCode resp \<noteq> 201 \<longrightarrow>
                  fst (CreateBranch env n name s) = Inl (Fatal_status (StatusCode resp)))"
    unfolding c by (elim exE conjE, intro exI conjI) (auto simp: createRequest_def)
qed

theorem CreateBranch_parent_request_status_witness:
  "fst (CreateBranch serviceEnv (client0\<lparr>Branch := ''dev''\<rparr>) ''foo'' (proc0 (remote0 0))) =
     Inl (Fatal_parent_not_found ''foo'' ''dev'')
   \<and> (\<exists>evs. trace (snd (CreateBranch serviceEnv client0 ''foo'' (proc0 (remote0 1)))) =
          trace (snd (GetBranchByName serviceEnv client0 ''main'' (proc0 (remote0 1)))) @ evs
        \<and> (\<forall>req \<in> set (requests evs).
              Request.Body req =
                Some \<lparr>CreateBranchRequest.Endpoints = [\<lparr>CreateEndpoint.Type = ''read_write''\<rparr>],
                      Branch = \<lparr>CreateBranch.Name = ''foo'', ParentID = ''br-main''\<rparr>\<rparr>))"
proof -
  let ?d = "client0\<lparr>Branch := ''dev''\<rparr>"
  let ?z = "proc0 (remote0 0) :: Remote proc"
  let ?s = "proc0 (remote0 1) :: Remote proc"
  have "fst (GetBranchByName serviceEnv ?d (Client.Branch ?d) ?z) = Inr None"
    by (simp add: run_defs service_defs)
  then have a: "GetBranchByName serviceEnv ?d (Client.Branch ?d) ?z =
      (Inr None, snd (GetBranchByName serviceEnv ?d (Client.Branch ?d) ?z))"
    by (metis prod.collapse)
  have "fst (GetBranchByName serviceEnv client0 (Client.Branch client0) ?s) = Inr (Some mainBranch)"
    by (simp add: run_defs service_defs)
  then have b: "GetBranchByName serviceEnv client0 (Client.Branch client0) ?s =
      (Inr (Some mainBranch), snd (GetBranchByName serviceEnv client0 (Client.Branch client0) ?s))"
    by (metis prod.collapse)
  have i: "Branch.ID mainBranch = ''br-main''" "Client.Branch client0 = ''main''"
    by (simp_all add: mainBranch_def client0_def)
  from CreateBranch_parent_request_status [of serviceEnv ?d ?z _
          "snd (GetBranchByName serviceEnv ?d (Client.Branch ?d) ?z)" "''foo''"] a
  have 1: "fst (CreateBranch serviceEnv ?d ''foo'' ?z) = Inl (Fatal_parent_not_found ''foo'' ''dev'')"
    by simp
  note T = CreateBranch_parent_request_status [of serviceEnv client0 ?s _
          "snd (GetBranchByName serviceEnv client0 (Client.Branch client0) ?s)" "''foo''"
          mainBranch]
  from T [THEN conjunct2, THEN conjunct2, THEN mp, OF b, THEN conjunct2]
  obtain evs where
    "trace (snd (CreateBranch serviceEnv client0 ''foo'' ?s)) =
       trace (snd (GetBranchByName serviceEnv client0 (Client.Branch client0) ?s)) @ evs"
    "\<forall>req \<in> set (requests evs).
        Method req = ''POST'' \<and> URL req = BranchesURL client0
        \<and> Request.Body req =
            Some \<lparr>CreateBranchRequest.Endpoints = [\<lparr>CreateEndpoint.Type = ''read_write''\<rparr>],
                  Branch = \<lparr>CreateBranch.Name = ''foo'', ParentID = Branch.ID mainBranch\<rparr>\<rparr>"
    by (elim exE conjE)
  with i have 2: "\<exists>evs. trace (snd (CreateBranch serviceEnv client0 ''foo'' ?s)) =
          trace (snd (GetBranchByName serviceEnv client0 ''main'' ?s)) @ evs
        \<and> (\<forall>req \<in> set (requests evs).
              Request.Body req =
                Some \<lparr>CreateBranchRequest.Endpoints = [\<lparr>CreateEndpoint.Type = ''read_write''\<rparr>],
                      Branch = \<lparr>CreateBranch.Name = ''foo'', ParentID = ''br-main''\<rparr>\<rparr>)"
    by auto
  from 1 2 show ?thesis by simp
qed

section \<open>Configuration of a client\<close>

lemma indepI:
  "(\<And>s b ev. m (with_globals b ev s) = (case m s of (r, s') \<Rightarrow> (r, with_globals b ev s')))
     \<Longrightarrow> indep m"
  by (simp add: indep_def)

lemma indepD:
  "indep m \<Longrightarrow> m s = (r, s') \<Longrightarrow> m (with_globals b ev s) = (r, with_globals b ev s')"
  by (simp add: indep_def)

lemma indep_ret [intro!]: "indep (ret x)"
  by (simp add: indep_def ret_def)

lemma indep_fatal [intro!]: "indep (fatal e)"
  by (simp add: indep_def fatal_def)

lemma indep_bind [intro!]:
  assumes "indep m" and "\<And>x. indep (f x)"
  shows "indep (bind m f)"
proof (rule indepI)
  fix s b ev
  obtain r s1 where m: "m s = (r, s1)" by (cases "m s")
  note m' = indepD [OF assms(1) m, of b ev]
  show "bind m f (with_globals b ev s) =
          (case bind m f s of (r, s') \<Rightarrow> (r, with_globals b ev s'))"
  proof (cases r)
    case (Inl e)
    with m m' show ?thesis by (simp add: bind_def)
  next
    case (Inr x)
    obtain r2 s2 where f: "f x s1 = (r2, s2)" by (cases "f x s1")
    from indepD [OF assms(2) f, of b ev] Inr m m' f show ?thesis by (simp add: bind_def)
  qed
qed

lemma indep_if [intro!]: "indep a \<Longrightarrow> indep b \<Longrightarrow> indep (if c then a else b)"
  by simp

lemma indep_NewRequest [intro!]: "indep (NewRequest env n method url body)"
  by (auto simp: NewRequest_def)

lemma indep_Do [intro!]: "indep (Do env req)"
  by (auto simp: indep_def Do_def with_globals_def split: prod.splits option.splits)

lemma indep_validateStatus [intro!]: "indep (validateStatus resp acc)"
  by (auto simp: validateStatus_def)

lemma indep_parseResponse [intro!]: "indep (parseResponse d resp)"
  by (auto simp: parseResponse_def split: option.splits)

lemma indep_GetBranches [intro!]: "indep (GetBranches env n)"
  unfolding GetBranches_def
  by (intro indep_bind indep_if indep_ret indep_NewRequest indep_Do indep_validateStatus
        indep_parseResponse)

lemma indep_GetBranch [intro!]: "indep (GetBranch env n name)"
  unfolding GetBranch_def
  by (intro indep_bind indep_if indep_ret indep_NewRequest indep_Do indep_validateStatus
        indep_parseResponse)

lemma indep_DeleteBranch [intro!]: "indep (DeleteBranch env n name)"
  unfolding DeleteBranch_def
  by (intro indep_bind indep_NewRequest indep_Do indep_validateStatus)

lemma indep_GetBranchByName [intro!]: "indep (GetBranchByName env n name)"
  unfolding GetBranchByName_def by (auto split: option.splits)

lemma indep_attempt: "indep (bind (NewCreateBranchRequest env n b) (Do env))"
  unfolding NewCreateBranchRequest_def by auto

lemma indep_finish:
  "indep (bind (validateStatus resp acc) (\<lambda>_. parseResponse d resp))"
  by auto

lemma Sleep_with_globals: "Sleep d (with_globals b ev s) = with_globals b ev (Sleep d s)"
  by (simp add: Sleep_def with_globals_def)

lemma create_loop_indep:
  "\<forall>b ev. create_loop env n name parent start retry (with_globals b ev s) =
     (case create_loop env n name parent start retry s of
        (r, s') \<Rightarrow> (r, with_globals b ev s'))"
proof (induction rule: create_loop_rule [where env = env and n = n and name = name
          and parent = parent and start = start and retry = retry and s = s])
  case (timeout retry s)
  have "clock (with_globals b ev s) = clock s" for b ev
    by (simp add: with_globals_def)
  with timeout show ?case
    by (subst create_loop.simps) simp
next
  case (stopped retry s e s')
  from indepD [OF indep_attempt stopped(2)] stopped(1) show ?case
    by (subst create_loop.simps) simp
next
  case (answered retry s resp s')
  show ?case
  proof (intro allI)
    fix b ev
    obtain r2 s2 where f: "bind (validateStatus resp [StatusOK, StatusCreated])
        (\<lambda>_. parseResponse (decode_BranchCreated env) resp) s' = (r2, s2)"
      by (cases "bind (validateStatus resp [StatusOK, StatusCreated])
        (\<lambda>_. parseResponse (decode_BranchCreated env) resp) s'")
    from indepD [OF indep_attempt answered(2), of b ev] indepD [OF indep_finish f, of b ev]
      answered(1,3) f
    show "create_loop env n name parent start retry (with_globals b ev s) =
       (case bind (validateStatus resp [StatusOK, StatusCreated])
               (\<lambda>_. parseResponse (decode_BranchCreated env) resp) s' of
        (r, s') \<Rightarrow> (r, with_globals b ev s'))"
      by (subst create_loop.simps) simp
  qed
next
  case (locked retry s resp s')
  show ?case
  proof (intro allI)
    fix b ev
    from indepD [OF indep_attempt locked(2), of b ev] locked(1,3,4)
    show "create_loop env n name parent start retry (with_globals b ev s) =
       (case create_loop env n name parent start (retry + 10) (Sleep retry s') of
        (r, s') \<Rightarrow> (r, with_globals b ev s'))"
      by (subst create_loop.simps) (simp add: Sleep_with_globals)
  qed
qed

lemma indep_CreateBranch [intro!]: "indep (CreateBranch env n name)"
  unfolding CreateBranch_def
proof (intro indep_bind indep_GetBranchByName)
  fix parent
  show "indep (case parent of
          None \<Rightarrow> fatal (Fatal_parent_not_found name (Client.Branch n))
        | Some p \<Rightarrow> (\<lambda>s. create_loop env n name p (clock s) (10 * Millisecond) s))"
  proof (cases parent)
    case None
    then show ?thesis by auto
  next
    case (Some p)
    have "clock (with_globals b ev s) = clock s" for b ev and s :: "'a proc"
      by (simp add: with_globals_def)
    with Some show ?thesis by (simp add: indep_def create_loop_indep)
  qed
qed

lemma indep_ForcedCreateBranch [intro!]: "indep (ForcedCreateBranch env n name)"
  unfolding ForcedCreateBranch_def by (auto split: option.splits)

lemma indep_call [intro!]: "indep (call do uri)"
  by (auto simp: indep_def call_def with_globals_def split: option.splits)

lemma indep_UsingBranch [intro!]: "indep (UsingBranch env n name do)"
  unfolding UsingBranch_def by (auto split: list.splits)

lemma indep_UsingTestBranch [intro!]: "indep (UsingTestBranch env n tname do)"
proof (rule indepI)
  fix s :: "'a proc" and b ev
  have h: "hostname (with_globals b ev s) = hostname s" by (simp add: with_globals_def)
  obtain r s' where u: "UsingBranch env n (branchName (hostname s) tname) do s = (r, s')"
    by (cases "UsingBranch env n (branchName (hostname s) tname) do s")
  from indepD [OF indep_UsingBranch u, of b ev] u h
  show "UsingTestBranch env n tname do (with_globals b ev s) =
          (case UsingTestBranch env n tname do s of (r, s') \<Rightarrow> (r, with_globals b ev s'))"
    by (simp add: UsingTestBranch_def)
qed

lemma indep_frame:
  assumes "indep m"
  shows "defaultBranch (snd (m s)) = defaultBranch s \<and> environ (snd (m s)) = environ s"
proof -
  obtain r s' where m: "m s = (r, s')" by (cases "m s")
  have "with_globals (defaultBranch s) (environ s) s = s" by (simp add: with_globals_def)
  with indepD [OF assms m, of "defaultBranch s" "environ s"] m
  have "s' = with_globals (defaultBranch s) (environ s) s'" by simp
  then have "defaultBranch s' = defaultBranch (with_globals (defaultBranch s) (environ s) s')"
    and "environ s' = environ (with_globals (defaultBranch s) (environ s) s')"
    by simp_all
  then have "defaultBranch s' = defaultBranch s \<and> environ s' = environ s"
    by (simp add: with_globals_def)
  with m show ?thesis by simp
qed

lemma indep_SetDefaultBranch:
  assumes "indep m"
  shows "m (SetDefaultBranch b s) = (case m s of (r, s') \<Rightarrow> (r, SetDefaultBranch b s'))"
proof -
  obtain r s' where m: "m s = (r, s')" by (cases "m s")
  from indep_frame [OF assms, of s] m have e: "environ s' = environ s" by simp
  have 1: "with_globals b (environ s) s = SetDefaultBranch b s"
    by (simp add: with_globals_def SetDefaultBranch_def)
  have 2: "with_globals b (environ s) s' = SetDefaultBranch b s'"
    using e by (simp add: with_globals_def SetDefaultBranch_def)
  from indepD [OF assms m, of b "environ s"] m 1 2 show ?thesis by simp
qed

lemma LoadClient_eq:
  "LoadClient s =
     (if environ s ''NEON_API_KEY'' = [] then (Inl (Fatal_missing_env ''NEON_API_KEY''), s)
      else if environ s ''NEON_PROJECT_ID'' = []
        then (Inl (Fatal_missing_env ''NEON_PROJECT_ID''), s)
      else (Inr \<lparr>Key = environ s ''NEON_API_KEY'', ProjectID = environ s ''NEON_PROJECT_ID'',
                 Branch = defaultBranch s, NoCleanup = False\<rparr>, s))"
  by (simp add: LoadClient_def require_def bind_def ret_def fatal_def)

text \<open>
  Claim C9. \<open>LoadClient\<close>, when it returns, leaves the process state as it is and returns
  the client made of the two environment values, the current value of the package variable
  \<^verbatim>\<open>defaultBranch\<close> and \<open>NoCleanup\<close> unset. A later \<open>SetDefaultBranch\<close> changes the
  package variable, which a client loaded afterwards gets; the client loaded before is a
  value that no operation takes by reference. \<open>UsingBranch\<close> and \<open>UsingTestBranch\<close> on a
  client do the same whatever the package variable has been set to in the meantime (they
  use the client's own \<open>Branch\<close>), and they leave the package variable and the
  environment variables as they are.
\<close>

theorem client_configuration_fixed:
  "(LoadClient s = (Inr c, s') \<longrightarrow>
      s' = s
      \<and> c = \<lparr>Key = environ s ''NEON_API_KEY'', ProjectID = environ s ''NEON_PROJECT_ID'',
              Branch = defaultBranch s, NoCleanup = False\<rparr>
      \<and> LoadClient (SetDefaultBranch b s) =
          (Inr (c\<lparr>Client.Branch := b\<rparr>), SetDefaultBranch b s))
   \<and> UsingBranch env n name do (SetDefaultBranch b t) =
       (case UsingBranch env n name do t of (r, t') \<Rightarrow> (r, SetDefaultBranch b t'))
   \<and> UsingTestBranch env n tname do (SetDefaultBranch b t) =
       (case UsingTestBranch env n tname do t of (r, t') \<Rightarrow> (r, SetDefaultBranch b t'))
   \<and> defaultBranch (snd (UsingBranch env n name do t)) = defaultBranch t
   \<and> environ (snd (UsingBranch env n name do t)) = environ t
   \<and> defaultBranch (snd (UsingTestBranch env n tname do t)) = defaultBranch t
   \<and> environ (snd (UsingTestBranch env n tname do t)) = environ t"
proof (intro conjI impI)
  assume l: "LoadClient s = (Inr c, s')"
  then show "s' = s"
    and "c = \<lparr>Key = environ s ''NEON_API_KEY'', ProjectID = environ s ''NEON_PROJECT_ID'',
              Branch = defaultBranch s, NoCleanup = False\<rparr>"
    by (auto simp: LoadClient_eq split: if_splits)
  from l show "LoadClient (SetDefaultBranch b s) =
          (Inr (c\<lparr>Client.Branch := b\<rparr>), SetDefaultBranch b s)"
    by (auto simp: LoadClient_eq SetDefaultBranch_def split: if_splits)
next
  show "UsingBranch env n name do (SetDefaultBranch b t) =
       (case UsingBranch env n name do t of (r, t') \<Rightarrow> (r, SetDefaultBranch b t'))"
    by (rule indep_SetDefaultBranch) (rule indep_UsingBranch)
  show "UsingTestBranch env n tname do (SetDefaultBranch b t) =
       (case UsingTestBranch env n tname do t of (r, t') \<Rightarrow> (r, SetDefaultBranch b t'))"
    by (rule indep_SetDefaultBranch) (rule indep_UsingTestBranch)
  from indep_frame [OF indep_UsingBranch, of env n name do t]
  show "defaultBranch (snd (UsingBranch env n name do t)) = defaultBranch t"
    and "environ (snd (UsingBranch env n name do t)) = environ t" by simp_all
  from indep_frame [OF indep_UsingTestBranch, of env n tname do t]
  show "defaultBranch (snd (UsingTestBranch env n tname do t)) = defaultBranch t"
    and "environ (snd (UsingTestBranch env n tname do t)) = environ t" by simp_all
qed

theorem client_configuration_fixed_witness:
  "LoadClient (proc0 (remote0 0)) = (Inr client0, proc0 (remote0 0))
   \<and> LoadClient (SetDefaultBranch ''dev'' (proc0 (remote0 0))) =
       (Inr (client0\<lparr>Client.Branch := ''dev''\<rparr>), SetDefaultBranch ''dev'' (proc0 (remote0 0)))"
proof -
  have l: "LoadClient (proc0 (remote0 0)) = (Inr client0, proc0 (remote0 0))"
    by (simp add: LoadClient_def require_def bind_def ret_def fatal_def proc0_def environ0_def
          client0_def)
  from client_configuration_fixed
         [of "proc0 (remote0 0)" client0 "proc0 (remote0 0)" "''dev''", THEN conjunct1,
          THEN mp, OF l] l
  show ?thesis by simp
qed

section \<open>Forced creation against the service\<close>










lemma literal_append [simp]: "literal (a @ b) \<longleftrightarrow> literal a \<and> literal b"
  by (simp add: literal_def)






















end
